theory Spec2Isabelle
  imports Main
begin

section \<open>Python values shared by the two modules\<close>

text \<open>
  Exceptions are values. Each constructor is a Python exception class and carries the
  message (for a formatted message, its template). \<open>BaseExceptionOnly\<close> stands for the
  classes that derive from \<open>BaseException\<close> but not from \<open>Exception\<close>
  (\<open>KeyboardInterrupt\<close>, \<open>SystemExit\<close>, \<open>GeneratorExit\<close>); \<open>OtherException\<close> for any
  further subclass of \<open>Exception\<close> that a collaborator may raise.
\<close>

datatype error =
    NotImplementedError string
  | ValueError string
  | IndexError string
  | KeyError string
  | ZeroDivisionError string
  | Exception string
  | OtherException string
  | BaseExceptionOnly string

fun is_Exception :: "error \<Rightarrow> bool" where
  "is_Exception (BaseExceptionOnly m) = False"
| "is_Exception e = True"

text \<open>
  An effectful call: it takes the state of everything outside the function (the
  application, the execution substrate and its task queue) and returns either the
  exception raised or the value, with the state afterwards. A call that leaves the state
  as it was has dispatched nothing.
\<close>

type_synonym ('s, 'a) call = "'s \<Rightarrow> (error + 'a) \<times> 's"

text \<open>Python's \<open>xs[i]\<close>: a negative index counts from the end, out of range raises.\<close>

definition axis_ok :: "nat \<Rightarrow> int \<Rightarrow> bool" where
  "axis_ok n i = (- int n \<le> i \<and> i < int n)"

definition norm_axis :: "nat \<Rightarrow> int \<Rightarrow> nat" where
  "norm_axis n i = nat (if i < 0 then int n + i else i)"

definition py_index :: "'a list \<Rightarrow> int \<Rightarrow> error + 'a" where
  "py_index xs i =
     (if axis_ok (length xs) i then Inr (xs ! norm_axis (length xs) i)
      else Inl (IndexError ''tuple index out of range''))"

text \<open>Python's \<open>range(start, stop, step)\<close>, as the list of its values.\<close>

definition py_range :: "int \<Rightarrow> int \<Rightarrow> int \<Rightarrow> error + int list" where
  "py_range start stop step =
     (if step = 0 then Inl (ValueError ''range() arg 3 must not be zero'')
      else if 0 < step then
        Inr (map (\<lambda>j. start + int j * step) [0..<nat ((stop - start + step - 1) div step)])
      else
        Inr (map (\<lambda>j. start + int j * step) [0..<nat ((start - stop - step - 1) div (- step))]))"

section \<open>The array handle as the public interface reads it\<close>

text \<open>
  \<open>nums/numpy/api.py\<close> reads only \<open>shape\<close> and \<open>block_shape\<close> of a \<open>BlockArray\<close>; the grid
  of blocks is the payload \<open>grid\<close>, whose type the interface functions leave open.
\<close>

record 'g BlockArray =
  shape :: "nat list"
  block_shape :: "nat list"
  grid :: 'g

section \<open>nums/numpy/api.py: argmin and argmax\<close>

definition out_not_supported :: string where
  \<comment> \<open>the message \<open>'out' is currently not supported.\<close>, with its two quote characters\<close>
  "out_not_supported = CHR 0x27 # ''out'' @ CHR 0x27 # '' is currently not supported.''"

text \<open>
  \<open>_instance().argop(name, a, axis=axis)\<close> is the parameter \<open>argop\<close>: looking the
  application up and dispatching the reduction.
\<close>

definition argmin ::
  "(string \<Rightarrow> 'g BlockArray \<Rightarrow> int option \<Rightarrow> ('s, 'r) call) \<Rightarrow>
   'g BlockArray \<Rightarrow> int option \<Rightarrow> 'o option \<Rightarrow> ('s, 'r) call" where
  "argmin argop a axis out s =
     (if out \<noteq> None then (Inl (NotImplementedError out_not_supported), s)
      else argop ''argmin'' a axis s)"

definition argmax ::
  "(string \<Rightarrow> 'g BlockArray \<Rightarrow> int option \<Rightarrow> ('s, 'r) call) \<Rightarrow>
   'g BlockArray \<Rightarrow> int option \<Rightarrow> 'o option \<Rightarrow> ('s, 'r) call" where
  "argmax argop a axis out s =
     (if 1 < length (shape a) then
        (Inl (NotImplementedError ''argmax currently only supports one-dimensional arrays.''), s)
      else if out \<noteq> None then
        (Inl (NotImplementedError out_not_supported), s)
      else argop ''argmax'' a axis s)"

section \<open>nums/numpy/api.py: split\<close>

text \<open>
  \<open>slice(start, stop, step)\<close>; \<open>None\<close> is an absent bound. \<open>indices_or_sections\<close> is an
  integer or anything else (a list of indices, in numpy's interface).
\<close>

datatype slice = Slice "int option" "int option" int

datatype sections = Sections int | Indices "int list"

text \<open>
  The loop \<open>for i in range(0, dim_total, dim_partial)\<close>. \<open>ary[tuple(ss_op)]\<close> is the
  parameter \<open>getitem\<close> (the subscript operator of \<open>BlockArray\<close>, which is the call that
  dispatches slicing work). \<open>ss_op\<close> is one list, updated in place at \<open>axis\<close>.
\<close>

fun split_loop ::
  "('g BlockArray \<Rightarrow> slice list \<Rightarrow> ('s, 'g BlockArray) call) \<Rightarrow> 'g BlockArray \<Rightarrow> nat \<Rightarrow> int \<Rightarrow>
   int list \<Rightarrow> slice list \<Rightarrow> 'g BlockArray list \<Rightarrow> ('s, 'g BlockArray list) call" where
  "split_loop getitem ary ax dim_partial [] ss_op results s = (Inr results, s)"
| "split_loop getitem ary ax dim_partial (i # rest) ss_op results s =
     (let start = i;
          stop = i + dim_partial;
          ss_op' = ss_op[ax := Slice (Some start) (Some stop) 1]
      in case getitem ary ss_op' s of
           (Inl e, s') \<Rightarrow> (Inl e, s')
         | (Inr ary_part, s') \<Rightarrow>
             split_loop getitem ary ax dim_partial rest ss_op' (results @ [ary_part]) s')"

definition split ::
  "('g BlockArray \<Rightarrow> slice list \<Rightarrow> ('s, 'g BlockArray) call) \<Rightarrow> 'g BlockArray \<Rightarrow> sections \<Rightarrow> int \<Rightarrow>
   ('s, 'g BlockArray list) call" where
  "split getitem ary indices_or_sections axis s =
     (case indices_or_sections of
        Indices v \<Rightarrow> (Inl (NotImplementedError ''Split currently supports integers only.''), s)
      | Sections n \<Rightarrow>
          (case py_index (shape ary) axis of
             Inl e \<Rightarrow> (Inl e, s)
           | Inr dim_total \<Rightarrow>
               if n = 0 then (Inl (ZeroDivisionError ''integer division or modulo by zero''), s)
               else if int dim_total mod n \<noteq> 0 then
                 (Inl (ValueError ''ary axis %s cannot be split into %s equal arrays.''), s)
               else
                 (let dim_partial = int dim_total div n;
                      ss_op = map (\<lambda>d. Slice None None 1) (shape ary)
                  in case py_range 0 (int dim_total) dim_partial of
                       Inl e \<Rightarrow> (Inl e, s)
                     | Inr starts \<Rightarrow>
                         split_loop getitem ary (norm_axis (length (shape ary)) axis) dim_partial
                           starts ss_op [] s)))"

text \<open>
  The vocabulary of the statement about \<open>split\<close>: the subscript for the \<open>i\<close>-th run of \<open>p\<close>
  consecutive indices along axis \<open>ax\<close> of an array of rank \<open>r\<close>, and the statement that
  subscripting \<open>ary\<close> by a list of subscripts in turn, from state \<open>s\<close>, returns \<open>parts\<close>
  one by one and ends in state \<open>s'\<close>.
\<close>

definition run_slice :: "nat \<Rightarrow> nat \<Rightarrow> nat \<Rightarrow> nat \<Rightarrow> slice list" where
  "run_slice r ax p i =
     (replicate r (Slice None None 1))[ax := Slice (Some (int (i * p))) (Some (int (i * p + p))) 1]"

fun slices_return ::
  "('g BlockArray \<Rightarrow> slice list \<Rightarrow> ('s, 'g BlockArray) call) \<Rightarrow> 'g BlockArray \<Rightarrow>
   slice list list \<Rightarrow> 's \<Rightarrow> 'g BlockArray list \<Rightarrow> 's \<Rightarrow> bool" where
  "slices_return getitem ary [] s parts s' = (parts = [] \<and> s' = s)"
| "slices_return getitem ary (sl # sls) s parts s' =
     (case getitem ary sl s of
        (Inl e, s1) \<Rightarrow> False
      | (Inr part, s1) \<Rightarrow>
          (case parts of
             [] \<Rightarrow> False
           | q # qs \<Rightarrow> q = part \<and> slices_return getitem ary sls s1 qs s'))"

section \<open>nums/numpy/api.py: concatenate\<close>

text \<open>
  \<open>scipy.stats.mode\<close> of a one-dimensional list (a library function): it walks the sorted
  distinct values, keeping the value whose count is strictly greater than the best so far,
  so that among equally common values the smallest wins. On an empty list it returns an
  empty array, and \<open>.item()\<close> on that raises.
\<close>

definition mode_scipy :: "nat list \<Rightarrow> nat" where
  "mode_scipy a =
     fst (fold (\<lambda>score (oldmostfreq, oldcounts).
                  let counts = count_list a score
                  in (if oldcounts < counts then score else oldmostfreq, max counts oldcounts))
               (sort (remdups a)) (0, 0))"

fun collect :: "(error + 'a) list \<Rightarrow> error + 'a list" where
  "collect [] = Inr []"
| "collect (Inl e # rs) = Inl e"
| "collect (Inr x # rs) = (case collect rs of Inl e \<Rightarrow> Inl e | Inr xs \<Rightarrow> Inr (x # xs))"

text \<open>
  \<open>_instance().concatenate(arrays, axis=axis, axis_block_size=axis_block_size)\<close> is the
  parameter \<open>app_concatenate\<close>.
\<close>

definition concatenate ::
  "('g BlockArray list \<Rightarrow> int \<Rightarrow> nat \<Rightarrow> ('s, 'r) call) \<Rightarrow>
   'g BlockArray list \<Rightarrow> int \<Rightarrow> 'o option \<Rightarrow> ('s, 'r) call" where
  "concatenate app_concatenate arrays axis out s =
     (if out \<noteq> None then
        (Inl (NotImplementedError ''out is currently not supported for concatenate.''), s)
      else
        (case collect (map (\<lambda>arr. py_index (block_shape arr) axis) arrays) of
           Inl e \<Rightarrow> (Inl e, s)
         | Inr sizes \<Rightarrow>
             if sizes = [] then
               (Inl (ValueError ''can only convert an array of size 1 to a Python scalar''), s)
             else app_concatenate arrays axis (mode_scipy sizes) s))"

section \<open>nums/numpy/api.py: loadtxt\<close>

text \<open>
  The collaborators of \<open>loadtxt\<close>, none of them in this module: \<open>_instance()\<close>,
  \<open>numpy_utils.get_num_cores\<close>, the application's \<open>loadtxt\<close>, \<open>compute_block_shape\<close> and
  \<open>array\<close>, the array's \<open>reshape\<close>, \<open>warnings.warn\<close> and numpy's own \<open>loadtxt\<close> with the
  \<open>shape\<close> of its result. \<open>'k\<close> is the bundle of parsing options (\<open>comments\<close>,
  \<open>delimiter\<close>, ..., \<open>max_rows\<close>), handed on unchanged to both parsers.
\<close>

record ('s, 'p, 'd, 'k, 'n, 'g) loadtxt_env =
  get_instance :: "('s, 'p) call"
  get_num_cores :: "'p \<Rightarrow> ('s, nat) call"
  app_loadtxt :: "'p \<Rightarrow> string \<Rightarrow> 'd \<Rightarrow> 'k \<Rightarrow> nat \<Rightarrow> ('s, 'g BlockArray) call"
  compute_block_shape :: "'p \<Rightarrow> nat list \<Rightarrow> 'd \<Rightarrow> ('s, nat list) call"
  ba_reshape :: "'g BlockArray \<Rightarrow> nat list \<Rightarrow> ('s, 'g BlockArray) call"
  warnings_warn :: "string \<Rightarrow> ('s, unit) call"
  np_loadtxt :: "string \<Rightarrow> 'd \<Rightarrow> 'k \<Rightarrow> ('s, 'n) call"
  np_shape :: "'n \<Rightarrow> nat list"
  app_array :: "'p \<Rightarrow> 'n \<Rightarrow> nat list \<Rightarrow> ('s, 'g BlockArray) call"

text \<open>The body of the \<open>try\<close>.\<close>

definition loadtxt_parallel ::
  "('s, 'p, 'd, 'k, 'n, 'g) loadtxt_env \<Rightarrow> 'p \<Rightarrow> nat \<Rightarrow> string \<Rightarrow> 'd \<Rightarrow> 'k \<Rightarrow>
   ('s, 'g BlockArray) call" where
  "loadtxt_parallel env app num_rows fname dtype kw s =
     (case app_loadtxt env app fname dtype kw num_rows s of
        (Inl e, s1) \<Rightarrow> (Inl e, s1)
      | (Inr ba, s1) \<Rightarrow>
          (case compute_block_shape env app (shape ba) dtype s1 of
             (Inl e, s2) \<Rightarrow> (Inl e, s2)
           | (Inr bshape, s2) \<Rightarrow> ba_reshape env ba bshape s2))"

text \<open>The body of the \<open>except Exception\<close> handler.\<close>

definition loadtxt_local ::
  "('s, 'p, 'd, 'k, 'n, 'g) loadtxt_env \<Rightarrow> 'p \<Rightarrow> string \<Rightarrow> 'd \<Rightarrow> 'k \<Rightarrow>
   ('s, 'g BlockArray) call" where
  "loadtxt_local env app fname dtype kw s =
     (case warnings_warn env ''Failed to load text data in parallel; using np.loadtxt locally.'' s of
        (Inl e, s1) \<Rightarrow> (Inl e, s1)
      | (Inr u, s1) \<Rightarrow>
          (case np_loadtxt env fname dtype kw s1 of
             (Inl e, s2) \<Rightarrow> (Inl e, s2)
           | (Inr np_arr, s2) \<Rightarrow>
               (case compute_block_shape env app (np_shape env np_arr) dtype s2 of
                  (Inl e, s3) \<Rightarrow> (Inl e, s3)
                | (Inr bshape, s3) \<Rightarrow> app_array env app np_arr bshape s3)))"

definition loadtxt ::
  "('s, 'p, 'd, 'k, 'n, 'g) loadtxt_env \<Rightarrow> string \<Rightarrow> 'd \<Rightarrow> 'k \<Rightarrow> ('s, 'g BlockArray) call" where
  "loadtxt env fname dtype kw s =
     (case get_instance env s of
        (Inl e, s1) \<Rightarrow> (Inl e, s1)
      | (Inr app, s1) \<Rightarrow>
          (case get_num_cores env app s1 of
             (Inl e, s2) \<Rightarrow> (Inl e, s2)
           | (Inr num_rows, s2) \<Rightarrow>
               (case loadtxt_parallel env app num_rows fname dtype kw s2 of
                  (Inr ba, s3) \<Rightarrow> (Inr ba, s3)
                | (Inl e, s3) \<Rightarrow>
                    if is_Exception e then loadtxt_local env app fname dtype kw s3
                    else (Inl e, s3))))"

section \<open>nums/core/application_manager.py\<close>

text \<open>
  \<open>nums.core.settings\<close>, read by \<open>create\<close>.
\<close>

record settings =
  system_name :: string
  num_cpus :: "nat option"
  cluster_shape :: "nat list"
  use_head :: bool
  address :: "string option"
  compute_name :: string
  device_grid_name :: string

text \<open>
  The objects \<open>create\<close> constructs. A system is the constructor call that made it; a
  device is named by a string; \<open>numpy_compute\<close> is the one compute module.
\<close>

datatype system =
    SerialSystem "nat option"
  | RaySystem "string option" bool nat "nat option"
  | RaySystemStockScheduler "string option" bool nat "nat option"
  | DaskSystem "string option" nat "nat option"
  | DaskSystemStockScheduler "string option" nat "nat option"

datatype compute_module = numpy_compute

datatype DeviceGrid =
    CyclicDeviceGrid "nat list" string "string list"
  | PackedDeviceGrid "nat list" string "string list"

record ComputeManager =
  cm_system :: system
  cm_compute_module :: compute_module
  cm_device_grid :: DeviceGrid

text \<open>
  \<open>ArrayApplication(cm, fs)\<close> with \<open>fs = FileSystem(cm)\<close>. Python compares objects by
  identity: \<open>app_id\<close> is the identity of the object, taken from a counter of the objects
  constructed so far.
\<close>

record ArrayApplication =
  app_id :: nat
  cm :: ComputeManager
  fs :: ComputeManager

text \<open>
  What the module does to the world outside its two globals, in the order it does it.
\<close>

datatype event =
    ConfigureLogging
  | SystemInit system
  | ComputeManagerCreate
  | SystemShutdown system
  | ComputeManagerDestroy

text \<open>
  A hook is a Python callable taking the application. It acts on the caller's own state
  \<open>'w\<close> and may raise.
\<close>

type_synonym 'w hook = "ArrayApplication \<Rightarrow> 'w \<Rightarrow> error option \<times> 'w"

text \<open>
  The module's state: the globals \<open>_instance\<close> and \<open>_call_on_create\<close>, the events so
  far, the object counter and the hooks' state.
\<close>

record 'w manager =
  instance_var :: "ArrayApplication option"
  call_on_create_var :: "'w hook list"
  events :: "event list"
  next_id :: nat
  hook_state :: 'w

definition is_initialized :: "'w manager \<Rightarrow> bool" where
  "is_initialized g = (instance_var g \<noteq> None)"

definition configure_logging :: "'w manager \<Rightarrow> 'w manager" where
  "configure_logging g = g\<lparr>events := events g @ [ConfigureLogging]\<rparr>"

text \<open>The chain of \<open>if\<close>/\<open>elif\<close> on \<open>settings.system_name\<close>.\<close>

definition make_system :: "settings \<Rightarrow> error + system" where
  "make_system st =
     (if system_name st = ''serial'' then Inr (SerialSystem (num_cpus st))
      else if system_name st = ''ray'' then
        Inr (RaySystem (address st) (use_head st) (prod_list (cluster_shape st)) (num_cpus st))
      else if system_name st = ''ray-scheduler'' then
        Inr (RaySystemStockScheduler (address st) (use_head st) (prod_list (cluster_shape st))
               (num_cpus st))
      else if system_name st = ''dask'' then
        Inr (DaskSystem (address st) (prod_list (cluster_shape st)) (num_cpus st))
      else if system_name st = ''dask-scheduler'' then
        Inr (DaskSystemStockScheduler (address st) (prod_list (cluster_shape st)) (num_cpus st))
      else Inl (Exception ''Unexpected system name %s''))"

definition make_device_grid :: "settings \<Rightarrow> string list \<Rightarrow> error + DeviceGrid" where
  "make_device_grid st devs =
     (if device_grid_name st = ''cyclic'' then Inr (CyclicDeviceGrid (cluster_shape st) ''cpu'' devs)
      else if device_grid_name st = ''packed'' then
        Inr (PackedDeviceGrid (cluster_shape st) ''cpu'' devs)
      else Inl (Exception ''Unexpected device grid name %s''))"

text \<open>
  \<open>create()\<close>. \<open>devices\<close> is \<open>system.devices()\<close>. The constructors and methods of the
  other modules (\<open>system.init()\<close>, \<open>ComputeManager.create\<close>, \<open>FileSystem\<close>,
  \<open>ArrayApplication\<close>) are taken to return; the ones that act on the world leave an
  event. \<open>create\<close> returns the application and does not assign \<open>_instance\<close>.
\<close>

definition create :: "settings \<Rightarrow> (system \<Rightarrow> string list) \<Rightarrow> ('w manager, ArrayApplication) call" where
  "create st devices g =
     (let g1 = configure_logging g in
      if instance_var g1 \<noteq> None then (Inl (Exception ''create() called more than once.''), g1)
      else
        (case make_system st of
           Inl e \<Rightarrow> (Inl e, g1)
         | Inr sys \<Rightarrow>
             (let g2 = g1\<lparr>events := events g1 @ [SystemInit sys]\<rparr> in
              if compute_name st \<noteq> ''numpy'' then (Inl (KeyError (compute_name st)), g2)
              else
                (case make_device_grid st (devices sys) of
                   Inl e \<Rightarrow> (Inl e, g2)
                 | Inr device_grid \<Rightarrow>
                     (let c = \<lparr>cm_system = sys, cm_compute_module = numpy_compute,
                               cm_device_grid = device_grid\<rparr>;
                          g3 = g2\<lparr>events := events g2 @ [ComputeManagerCreate]\<rparr>
                      in (Inr \<lparr>app_id = next_id g3, cm = c, fs = c\<rparr>,
                          g3\<lparr>next_id := Suc (next_id g3)\<rparr>))))))"

text \<open>The loop \<open>for func in _call_on_create: func(_instance)\<close>; an exception ends it.\<close>

fun run_hooks :: "'w hook list \<Rightarrow> ArrayApplication \<Rightarrow> 'w \<Rightarrow> error option \<times> 'w" where
  "run_hooks [] a w = (None, w)"
| "run_hooks (func # funcs) a w =
     (case func a w of
        (Some e, w') \<Rightarrow> (Some e, w')
      | (None, w') \<Rightarrow> run_hooks funcs a w')"

definition instance' :: "settings \<Rightarrow> (system \<Rightarrow> string list) \<Rightarrow> ('w manager, ArrayApplication) call" where
  "instance' st devices g =
     (case instance_var g of
        Some a \<Rightarrow> (Inr a, g)
      | None \<Rightarrow>
          (case create st devices g of
             (Inl e, g1) \<Rightarrow> (Inl e, g1)
           | (Inr a, g1) \<Rightarrow>
               (let g2 = g1\<lparr>instance_var := Some a\<rparr> in
                case run_hooks (call_on_create_var g2) a (hook_state g2) of
                  (Some e, w) \<Rightarrow> (Inl e, g2\<lparr>hook_state := w\<rparr>)
                | (None, w) \<Rightarrow> (Inr a, g2\<lparr>hook_state := w\<rparr>))))"

definition call_on_create :: "'w hook \<Rightarrow> ('w manager, unit) call" where
  "call_on_create func g =
     (let g1 = g\<lparr>call_on_create_var := call_on_create_var g @ [func]\<rparr> in
      case instance_var g1 of
        None \<Rightarrow> (Inr (), g1)
      | Some a \<Rightarrow>
          (case func a (hook_state g1) of
             (Some e, w) \<Rightarrow> (Inl e, g1\<lparr>hook_state := w\<rparr>)
           | (None, w) \<Rightarrow> (Inr (), g1\<lparr>hook_state := w\<rparr>)))"

definition destroy :: "'w manager \<Rightarrow> 'w manager" where
  "destroy g =
     (case instance_var g of
        None \<Rightarrow> g
      | Some a \<Rightarrow>
          g\<lparr>events := events g @ [SystemShutdown (cm_system (cm a)), ComputeManagerDestroy],
            instance_var := None\<rparr>)"

text \<open>The settings under which \<open>create\<close> raises nothing.\<close>

definition settings_ok :: "settings \<Rightarrow> bool" where
  "settings_ok st =
     (system_name st \<in> set [''serial'', ''ray'', ''ray-scheduler'', ''dask'', ''dask-scheduler'']
      \<and> compute_name st = ''numpy''
      \<and> device_grid_name st \<in> set [''cyclic'', ''packed''])"

text \<open>All hooks of a list, one after the other, none raising.\<close>

definition invoke_all :: "'w hook list \<Rightarrow> ArrayApplication \<Rightarrow> 'w \<Rightarrow> 'w" where
  "invoke_all funcs a w = fold (\<lambda>func w. snd (func a w)) funcs w"

definition wf_manager :: "'w manager \<Rightarrow> bool" where
  "wf_manager g = (case instance_var g of None \<Rightarrow> True | Some a \<Rightarrow> app_id a < next_id g)"

section \<open>The device grid: cyclic placement\<close>

text \<open>
  \<open>create\<close> builds \<open>CyclicDeviceGrid(settings.cluster_shape, "cpu", system.devices())\<close>; the
  class itself (\<open>nums.core.grid.grid\<close>) is not among the sources. Coordinates and shapes
  are lists of naturals, one entry per axis.
\<close>

text \<open>
  Modelled from the spec: the row-major flattening of a coordinate over a shape, used by
  \<open>CyclicDeviceGrid.get_device\<close> (missing: \<open>nums.core.grid.grid\<close>). The last axis varies
  fastest: the index is the sum of each entry times the product of the extents after it.
\<close>

fun ravel_index :: "nat list \<Rightarrow> nat list \<Rightarrow> nat" where
  "ravel_index (n # ns) (c # cs) = c * prod_list ns + ravel_index ns cs"
| "ravel_index ns cs = 0"

text \<open>
  Modelled from the spec: the cluster shape as seen by a coordinate of \<open>r\<close> axes (missing:
  \<open>nums.core.grid.grid\<close>): excess cluster-shape axes are dropped and missing axes are
  treated as size 1.
\<close>

definition fit_cluster_shape :: "nat list \<Rightarrow> nat \<Rightarrow> nat list" where
  "fit_cluster_shape cshape r =
     take r cshape @ replicate (r - length cshape) 1"

text \<open>
  Modelled from the spec: \<open>CyclicDeviceGrid.get_device\<close> (missing:
  \<open>nums.core.grid.grid\<close>): it flattens the coordinate to a single index in row-major order
  over the cluster shape and assigns device \<open>index mod device_count\<close>. With no device the
  modulus is zero, which Python raises on.
\<close>

definition cyclic_get_device :: "nat list \<Rightarrow> 'd list \<Rightarrow> nat list \<Rightarrow> error + 'd" where
  "cyclic_get_device cshape devices coordinate =
     (if devices = [] then Inl (ZeroDivisionError ''integer division or modulo by zero'')
      else Inr (devices !
                 (ravel_index (fit_cluster_shape cshape (length coordinate)) coordinate
                    mod length devices)))"

text \<open>
  Modelled from the spec: the coordinates of a grid of the given shape (one integer per
  axis, each below the extent of its axis), in row-major iteration order.
\<close>

definition grid_coordinates :: "nat list \<Rightarrow> nat list list" where
  "grid_coordinates sh = product_lists (map (\<lambda>n. [0..<n]) sh)"

text \<open>
  Modelled from the spec: the coordinate count of a device, the number of coordinates of the
  cluster grid that the cyclic policy assigns to it.
\<close>

definition device_load :: "nat list \<Rightarrow> 'd list \<Rightarrow> 'd \<Rightarrow> nat" where
  "device_load cshape devices d =
     length (filter (\<lambda>c. cyclic_get_device cshape devices c = Inr d)
               (grid_coordinates cshape))"

section \<open>The distributed array and the blocked operations of the compute manager\<close>

text \<open>
  \<open>identity\<close>, \<open>matmul\<close>, \<open>ones\<close> and \<open>sum\<close> of \<open>nums/numpy/api.py\<close> only forward to the
  application (\<open>app.eye\<close>, \<open>app.matmul\<close>, \<open>app.ones\<close>, \<open>app.sum\<close>), whose code
  (\<open>nums.core.array\<close>, \<open>nums.core.compute\<close>) is not among the sources. The definitions of
  this section follow sections 3 and 4.3 of the specification, for arrays of two axes
  (and of one axis for the result of a reduction). A block holds the value its result
  handle resolves to; values are integers, so the arithmetic of a block is exact, and
  the device of a block, which no value depends on, is left out.
\<close>

text \<open>
  Modelled from the spec: the number of blocks along an axis of extent \<open>n\<close> cut into blocks
  of at most \<open>b\<close> (missing: the array grid of \<open>nums.core.array\<close>): the blocks tile the
  axis, only the last may be smaller.
\<close>

definition num_blocks :: "nat \<Rightarrow> nat \<Rightarrow> nat" where
  "num_blocks n b = (n + b - 1) div b"

text \<open>
  Modelled from the spec: the extent of block \<open>i\<close> along such an axis (missing: the array
  grid of \<open>nums.core.array\<close>): the block shape, except at the array boundary.
\<close>

definition local_extent :: "nat \<Rightarrow> nat \<Rightarrow> nat \<Rightarrow> nat" where
  "local_extent n b i = min b (n - i * b)"

text \<open>
  Modelled from the spec: the block record of a two-axis array (missing: the block class
  of \<open>nums.core.array\<close>): its local shape and its value, a list of rows.
\<close>

record block =
  local_shape :: "nat \<times> nat"
  block_value :: "int list list"

text \<open>
  Modelled from the spec: the DistributedArray of two axes (missing: \<open>BlockArray\<close> of
  \<open>nums.core.array.blockarray\<close>): global shape, block shape and the grid of block
  records, in row-major order.
\<close>

record DistributedArray =
  array_shape :: "nat \<times> nat"
  array_block_shape :: "nat \<times> nat"
  array_grid :: "block list list"

text \<open>
  Modelled from the spec: the block record of a one-axis array (missing: the block class of
  \<open>nums.core.array\<close>), as the reduction of one axis of two produces it.
\<close>

record vector_block =
  local_length :: nat
  vector_value :: "int list"

text \<open>
  Modelled from the spec: the DistributedArray of one axis (missing: \<open>BlockArray\<close> of
  \<open>nums.core.array.blockarray\<close>): global shape, block shape and the grid of block records.
\<close>

record DistributedVector =
  vector_shape :: nat
  vector_block_shape :: nat
  vector_grid :: "vector_block list"

text \<open>
  Modelled from the spec: the shape of the grid of an array (missing: the array grid of
  \<open>nums.core.array\<close>).
\<close>

definition grid_shape :: "DistributedArray \<Rightarrow> nat \<times> nat" where
  "grid_shape A =
     (num_blocks (fst (array_shape A)) (fst (array_block_shape A)),
      num_blocks (snd (array_shape A)) (snd (array_block_shape A)))"

text \<open>
  Modelled from the spec: a block record is consistent when its value has its local shape.
\<close>

definition block_ok :: "block \<Rightarrow> bool" where
  "block_ok b =
     (length (block_value b) = fst (local_shape b)
      \<and> list_all (\<lambda>row. length row = snd (local_shape b)) (block_value b))"

text \<open>
  Modelled from the spec: the invariant of the data model (section 3): the block shape is
  positive, the local shapes of the grid are the tiling of the global shape by the block
  shape (boundary blocks smaller, never larger, no gap, no overlap), and every block is
  consistent.
\<close>

definition well_formed :: "DistributedArray \<Rightarrow> bool" where
  "well_formed A =
     (0 < fst (array_block_shape A) \<and> 0 < snd (array_block_shape A)
      \<and> map (map local_shape) (array_grid A)
          = map (\<lambda>i. map (\<lambda>j. (local_extent (fst (array_shape A)) (fst (array_block_shape A)) i,
                                  local_extent (snd (array_shape A)) (snd (array_block_shape A)) j))
                          [0..<snd (grid_shape A)])
                [0..<fst (grid_shape A)]
      \<and> list_all (list_all block_ok) (array_grid A))"

text \<open>
  Modelled from the spec: the export of an array to a local dense value (missing:
  \<open>BlockArray.get\<close>): element \<open>(r, c)\<close> lies in block \<open>(r div b1, c div b2)\<close> at the local
  position \<open>(r mod b1, c mod b2)\<close>.
\<close>

definition element :: "DistributedArray \<Rightarrow> nat \<Rightarrow> nat \<Rightarrow> int" where
  "element A r c =
     block_value (array_grid A ! (r div fst (array_block_shape A)) ! (c div snd (array_block_shape A)))
       ! (r mod fst (array_block_shape A)) ! (c mod snd (array_block_shape A))"

text \<open>
  Modelled from the spec: the local dense representation of a two-axis array (missing:
  \<open>BlockArray.get\<close>), a list of rows.
\<close>

definition to_dense :: "DistributedArray \<Rightarrow> int list list" where
  "to_dense A =
     map (\<lambda>r. map (\<lambda>c. element A r c) [0..<snd (array_shape A)]) [0..<fst (array_shape A)]"

text \<open>
  Modelled from the spec: element \<open>c\<close> of a one-axis array (missing: \<open>BlockArray.get\<close>).
\<close>

definition vector_element :: "DistributedVector \<Rightarrow> nat \<Rightarrow> int" where
  "vector_element V c =
     vector_value (vector_grid V ! (c div vector_block_shape V)) ! (c mod vector_block_shape V)"

text \<open>
  Modelled from the spec: the local dense representation of a one-axis array (missing:
  \<open>BlockArray.get\<close>).
\<close>

definition vector_to_dense :: "DistributedVector \<Rightarrow> int list" where
  "vector_to_dense V = map (vector_element V) [0..<vector_shape V]"

text \<open>
  Modelled from the spec: a construction primitive (missing: the creation operations of
  \<open>ArrayApplication\<close>): the array of the given shape and block shape whose element
  \<open>(r, c)\<close> is \<open>f r c\<close>, each block built on its own from its global offsets.
\<close>

definition from_function :: "nat \<times> nat \<Rightarrow> nat \<times> nat \<Rightarrow> (nat \<Rightarrow> nat \<Rightarrow> int) \<Rightarrow> DistributedArray" where
  "from_function sh bs f =
     \<lparr>array_shape = sh, array_block_shape = bs,
      array_grid =
        map (\<lambda>i. map (\<lambda>j.
               \<lparr>local_shape = (local_extent (fst sh) (fst bs) i, local_extent (snd sh) (snd bs) j),
                block_value =
                  map (\<lambda>r. map (\<lambda>c. f (i * fst bs + r) (j * snd bs + c))
                               [0..<local_extent (snd sh) (snd bs) j])
                      [0..<local_extent (fst sh) (fst bs) i]\<rparr>)
             [0..<num_blocks (snd sh) (snd bs)])
          [0..<num_blocks (fst sh) (fst bs)]\<rparr>"

text \<open>
  Modelled from the spec: \<open>ArrayApplication.ones\<close> (missing:
  \<open>nums.core.array.application\<close>), which \<open>ones\<close> of \<open>api.py\<close> calls with the block shape
  \<open>app.get_block_shape\<close> chose; here the block shape is an argument.
\<close>

definition ones :: "nat \<times> nat \<Rightarrow> nat \<times> nat \<Rightarrow> DistributedArray" where
  "ones sh bs = from_function sh bs (\<lambda>r c. 1)"

text \<open>
  Modelled from the spec: \<open>ArrayApplication.eye\<close> (missing: \<open>nums.core.array.application\<close>),
  which \<open>eye\<close> of \<open>api.py\<close> calls for \<open>k = 0\<close> with the block shape
  \<open>app.get_block_shape\<close> chose; here the block shape is an argument.
\<close>

definition eye :: "nat \<times> nat \<Rightarrow> nat \<times> nat \<Rightarrow> DistributedArray" where
  "eye sh bs = from_function sh bs (\<lambda>r c. if r = c then 1 else 0)"

text \<open>
  \<open>identity(n)\<close> of \<open>api.py\<close> is \<open>eye(n, n)\<close>.
\<close>

definition identity :: "nat \<Rightarrow> nat \<times> nat \<Rightarrow> DistributedArray" where
  "identity n bs = eye (n, n) bs"

text \<open>
  Modelled from the spec: the second phase of a reduction (missing: the reduction tree of
  \<open>nums.core.compute\<close>): the partial results are combined in strictly ascending
  block-coordinate order; \<open>neutral\<close> is the result when there is no partial result.
\<close>

definition reduce_ascending :: "('a \<Rightarrow> 'a \<Rightarrow> 'a) \<Rightarrow> 'a \<Rightarrow> 'a list \<Rightarrow> 'a" where
  "reduce_ascending combine neutral partials =
     (case partials of [] \<Rightarrow> neutral | p # rest \<Rightarrow> foldl combine p rest)"

text \<open>
  Modelled from the spec: phase 1 of \<open>sum\<close> over axis 0 (missing: the reduction kernel of
  \<open>nums.core.compute\<close>): a block sums its own rows, on its own.
\<close>

definition block_sum_axis0 :: "block \<Rightarrow> vector_block" where
  "block_sum_axis0 b =
     \<lparr>local_length = snd (local_shape b),
      vector_value = map (\<lambda>c. sum_list (map (\<lambda>row. row ! c) (block_value b)))
                         [0..<snd (local_shape b)]\<rparr>"

text \<open>
  Modelled from the spec: the combiner of \<open>sum\<close>, sum of sums (missing: the reduction kernel
  of \<open>nums.core.compute\<close>).
\<close>

definition vector_block_add :: "vector_block \<Rightarrow> vector_block \<Rightarrow> vector_block" where
  "vector_block_add u v =
     \<lparr>local_length = local_length u, vector_value = map2 (+) (vector_value u) (vector_value v)\<rparr>"

text \<open>
  Modelled from the spec: \<open>sum\<close> over axis 0 without \<open>keepdims\<close> (missing:
  \<open>ArrayApplication.sum\<close>, which \<open>sum\<close> of \<open>api.py\<close> forwards to), in two phases: the
  partial sums of the blocks with the same column coordinate are combined in ascending
  row-coordinate order, and the reduced axis is dropped from the result.
\<close>

definition sum_axis0 :: "DistributedArray \<Rightarrow> DistributedVector" where
  "sum_axis0 A =
     \<lparr>vector_shape = snd (array_shape A),
      vector_block_shape = snd (array_block_shape A),
      vector_grid =
        map (\<lambda>j. reduce_ascending vector_block_add
                    \<lparr>local_length = local_extent (snd (array_shape A)) (snd (array_block_shape A)) j,
                     vector_value = replicate (local_extent (snd (array_shape A))
                                                 (snd (array_block_shape A)) j) 0\<rparr>
                    (map (\<lambda>i. block_sum_axis0 (array_grid A ! i ! j)) [0..<fst (grid_shape A)]))
            [0..<snd (grid_shape A)]\<rparr>"

text \<open>
  Modelled from the spec: the partial-product task of a contraction (missing: the matmul
  kernel of \<open>nums.core.compute\<close>): the dense product of two blocks.
\<close>

definition block_matmul :: "block \<Rightarrow> block \<Rightarrow> block" where
  "block_matmul a b =
     \<lparr>local_shape = (fst (local_shape a), snd (local_shape b)),
      block_value =
        map (\<lambda>row. map (\<lambda>c. sum_list (map2 (\<lambda>x brow. x * brow ! c) row (block_value b)))
                        [0..<snd (local_shape b)])
            (block_value a)\<rparr>"

text \<open>
  Modelled from the spec: the combiner of the partial products, their elementwise sum
  (missing: the reduction kernel of \<open>nums.core.compute\<close>).
\<close>

definition block_add :: "block \<Rightarrow> block \<Rightarrow> block" where
  "block_add a b =
     \<lparr>local_shape = local_shape a,
      block_value = map2 (map2 (+)) (block_value a) (block_value b)\<rparr>"

text \<open>
  Modelled from the spec: the block of zeros of a local shape, the product over an empty
  contracted axis.
\<close>

definition zero_block :: "nat \<times> nat \<Rightarrow> block" where
  "zero_block ls = \<lparr>local_shape = ls, block_value = replicate (fst ls) (replicate (snd ls) 0)\<rparr>"

text \<open>
  Modelled from the spec: two operands are compatible for a contraction when the contracted
  axis has the same extent and is partitioned identically (equal block size) on both.
\<close>

definition compatible_for_matmul :: "DistributedArray \<Rightarrow> DistributedArray \<Rightarrow> bool" where
  "compatible_for_matmul A B =
     (snd (array_shape A) = fst (array_shape B)
      \<and> snd (array_block_shape A) = fst (array_block_shape B))"

text \<open>
  Modelled from the spec: blocked contraction (missing: \<open>ArrayApplication.matmul\<close>, which
  \<open>matmul\<close> of \<open>api.py\<close> forwards to). Operands that are not compatible are rejected
  before any block is touched. For each output block coordinate one partial product is
  formed per contraction block, and the partial products are combined in ascending order
  of the contraction coordinate.
\<close>

definition matmul :: "DistributedArray \<Rightarrow> DistributedArray \<Rightarrow> error + DistributedArray" where
  "matmul A B =
     (if snd (array_shape A) \<noteq> fst (array_shape B) then
        Inl (ValueError ''shape mismatch on the contracted axis'')
      else if snd (array_block_shape A) \<noteq> fst (array_block_shape B) then
        Inl (ValueError ''block shape mismatch on the contracted axis'')
      else
        Inr \<lparr>array_shape = (fst (array_shape A), snd (array_shape B)),
             array_block_shape = (fst (array_block_shape A), snd (array_block_shape B)),
             array_grid =
               map (\<lambda>i. map (\<lambda>j.
                      reduce_ascending block_add
                        (zero_block (local_extent (fst (array_shape A)) (fst (array_block_shape A)) i,
                                     local_extent (snd (array_shape B)) (snd (array_block_shape B)) j))
                        (map (\<lambda>k. block_matmul (array_grid A ! i ! k) (array_grid B ! k ! j))
                             [0..<snd (grid_shape A)]))
                    [0..<snd (grid_shape B)])
                 [0..<fst (grid_shape A)]\<rparr>)"

section \<open>Concrete collaborators, for running the definitions\<close>

definition demo_array :: "nat \<times> nat \<Rightarrow> DistributedArray" where
  "demo_array bs = from_function (4, 3) bs (\<lambda>r c. int (10 * r + c))"

definition demo_getitem :: "unit BlockArray \<Rightarrow> slice list \<Rightarrow> (slice list list, unit BlockArray) call" where
  "demo_getitem ary sl s =
     (Inr (ary\<lparr>shape := map2 (\<lambda>d x. case x of Slice (Some a) (Some b) st \<Rightarrow> nat (b - a) | _ \<Rightarrow> d)
                             (shape ary) sl\<rparr>), s @ [sl])"

definition demo_loadtxt_env ::
  "(string list, unit, unit, unit, int list list, int list list) loadtxt_env" where
  "demo_loadtxt_env =
     \<lparr>get_instance = (\<lambda>s. (Inr (), s)),
      get_num_cores = (\<lambda>app s. (Inr 4, s)),
      app_loadtxt = (\<lambda>app fname dtype kw num_workers s.
                       (Inl (OtherException ''no worker reachable''), s @ [''app.loadtxt''])),
      compute_block_shape = (\<lambda>app sh dtype s. (Inr sh, s)),
      ba_reshape = (\<lambda>ba bshape s. (Inr (ba\<lparr>block_shape := bshape\<rparr>), s)),
      warnings_warn = (\<lambda>msg s. (Inr (), s @ [msg])),
      np_loadtxt = (\<lambda>fname dtype kw s. (Inr [[1, 2], [3, 4], [5, 6]], s @ [''np.loadtxt''])),
      np_shape = (\<lambda>rows. [length rows, length (hd rows)]),
      app_array = (\<lambda>app rows bshape s.
                     (Inr \<lparr>shape = [length rows, length (hd rows)], block_shape = bshape,
                           grid = rows\<rparr>, s @ [''app.array'']))\<rparr>"

definition demo_settings :: settings where
  "demo_settings =
     \<lparr>system_name = ''serial'', num_cpus = Some 4, cluster_shape = [1, 1], use_head = True,
      address = None, compute_name = ''numpy'', device_grid_name = ''cyclic''\<rparr>"

definition demo_devices :: "system \<Rightarrow> string list" where
  "demo_devices sys = [''cpu:0'']"

definition log_hook :: "string \<Rightarrow> (string \<times> nat) list hook" where
  "log_hook name a w = (None, w @ [(name, app_id a)])"

definition demo_cm :: ComputeManager where
  "demo_cm = \<lparr>cm_system = SerialSystem (Some 4), cm_compute_module = numpy_compute,
              cm_device_grid = CyclicDeviceGrid [1, 1] ''cpu'' [''cpu:0'']\<rparr>"

definition demo_app :: "nat \<Rightarrow> ArrayApplication" where
  "demo_app i = \<lparr>app_id = i, cm = demo_cm, fs = demo_cm\<rparr>"

definition demo_manager :: "ArrayApplication option \<Rightarrow> nat \<Rightarrow> (string \<times> nat) list manager" where
  "demo_manager inst n =
     \<lparr>instance_var = inst, call_on_create_var = [log_hook ''first'', log_hook ''second''],
      events = [], next_id = n, hook_state = []\<rparr>"

section \<open>Properties of argmin and argmax\<close>

text \<open>
  C10. At the public interface \<open>argmax\<close> raises \<open>NotImplementedError\<close> for every array of
  more than one dimension, whatever the other arguments, and the state is untouched: no
  work was dispatched. \<open>argmin\<close> has no such check: for an array of any rank (and no
  \<open>out\<close>) it is exactly the dispatch of the reduction named argmin.
\<close>

theorem argmax_rank_restricted_argmin_not:
  "(1 < length (shape a) \<longrightarrow>
      argmax argop a axis out s =
        (Inl (NotImplementedError ''argmax currently only supports one-dimensional arrays.''), s))
   \<and> argmin argop a axis None s = argop ''argmin'' a axis s"
  by (simp add: argmax_def argmin_def)

theorem argmax_rank_restricted_argmin_not_witness:
  "1 < length (shape \<lparr>shape = [2, 3], block_shape = [1, 3], grid = ()\<rparr>)
   \<and> argmax (\<lambda>name a axis s. (Inr (shape a), s @ [name]))
        \<lparr>shape = [2, 3], block_shape = [1, 3], grid = ()\<rparr> None (None :: unit option) []
      = (Inl (NotImplementedError ''argmax currently only supports one-dimensional arrays.''), [])
   \<and> argmin (\<lambda>name a axis s. (Inr (shape a), s @ [name]))
        \<lparr>shape = [2, 3], block_shape = [1, 3], grid = ()\<rparr> None (None :: unit option) []
      = (Inr [2, 3], [''argmin''])"
  using argmax_rank_restricted_argmin_not
    [of "\<lparr>shape = [2, 3], block_shape = [1, 3], grid = ()\<rparr>"
        "\<lambda>name a axis s. (Inr (shape a), s @ [name])" None "None :: unit option" "[]"]
  by simp

section \<open>Properties of split\<close>

lemma slices_return_length:
  "slices_return gi ary sls s parts s' \<Longrightarrow> length parts = length sls"
  by (induction sls arbitrary: s parts) (auto split: prod.splits sum.splits list.splits)

lemma split_loop_run:
  "slices_return gi ary (map (\<lambda>i. ss_op[ax := Slice (Some i) (Some (i + dp)) 1]) starts) s parts s'
   \<Longrightarrow> split_loop gi ary ax dp starts ss_op results s = (Inr (results @ parts), s')"
proof (induction starts arbitrary: ss_op results s parts)
  case Nil
  then show ?case by simp
next
  case (Cons i rest)
  let ?sl = "ss_op[ax := Slice (Some i) (Some (i + dp)) 1]"
  from Cons.prems obtain part s1 qs where
    g: "gi ary ?sl s = (Inr part, s1)" and p: "parts = part # qs" and
    r: "slices_return gi ary (map (\<lambda>i. ss_op[ax := Slice (Some i) (Some (i + dp)) 1]) rest) s1 qs s'"
    by (auto split: prod.splits sum.splits list.splits)
  have "map (\<lambda>j. ?sl[ax := Slice (Some j) (Some (j + dp)) 1]) rest
        = map (\<lambda>i. ss_op[ax := Slice (Some i) (Some (i + dp)) 1]) rest"
    by simp
  with r have "slices_return gi ary (map (\<lambda>j. ?sl[ax := Slice (Some j) (Some (j + dp)) 1]) rest) s1 qs s'"
    by simp
  from Cons.IH[OF this] have
    "split_loop gi ary ax dp rest ?sl (results @ [part]) s1 = (Inr ((results @ [part]) @ qs), s')" .
  with g p show ?case by simp
qed

lemma py_range_sections:
  assumes "0 < k" and "0 < d" and "int d mod k = 0"
  shows "py_range 0 (int d) (int d div k) = Inr (map (\<lambda>j. int (j * (d div nat k))) [0..<nat k])"
proof -
  define p where "p = int d div k"
  have dk: "int d = k * p" using assms(3) p_def by auto
  have ppos: "0 < p"
  proof (rule ccontr)
    assume "\<not> 0 < p"
    then have "p \<le> 0" by simp
    with assms(1) have "k * p \<le> 0" by (simp add: mult_le_0_iff)
    with dk assms(2) show False by simp
  qed
  have e: "k * p + p - 1 = (p - 1) + k * p" by simp
  have "((p - 1) + k * p) div p = k + (p - 1) div p"
    using ppos div_mult_self1[of p "p - 1" k] by simp
  moreover have "(p - 1) div p = 0" using ppos by (simp add: div_pos_pos_trivial)
  ultimately have c0: "((p - 1) + k * p) div p = k" by simp
  have cnt: "(k * p + p - 1) div p = k" by (subst e) (rule c0)
  have pn: "int (d div nat k) = p"
    using assms(1) p_def by (simp add: zdiv_int)
  have "py_range 0 (k * p) p = Inr (map (\<lambda>j. int j * p) [0..<nat k])"
    using ppos cnt by (simp add: py_range_def)
  then show ?thesis
    unfolding p_def[symmetric] dk[symmetric] using pn by simp
qed

lemma run_slice_eq:
  "map (\<lambda>i. (map (\<lambda>d. Slice None None 1) sh)[ax := Slice (Some i) (Some (i + int p)) 1])
       (map (\<lambda>j. int (j * p)) [0..<n])
   = map (run_slice (length sh) ax p) [0..<n]"
  by (simp add: run_slice_def map_replicate_const)

text \<open>
  Outside the statement below: anything but an integer is refused, and on an axis of extent
  0 (which the data model excludes: shapes are positive) the step of \<open>range\<close> is 0 and
  \<open>range\<close> raises.
\<close>

lemma split_indices_not_implemented:
  "split getitem ary (Indices v) axis s
     = (Inl (NotImplementedError ''Split currently supports integers only.''), s)"
  by (simp add: split_def)

lemma split_zero_extent:
  assumes "axis_ok (length (shape ary)) axis"
    and "shape ary ! norm_axis (length (shape ary)) axis = 0" and "k \<noteq> 0"
  shows "split getitem ary (Sections k) axis s
           = (Inl (ValueError ''range() arg 3 must not be zero''), s)"
  using assms by (simp add: split_def py_index_def py_range_def)

text \<open>
  C5. For a positive integer \<open>k\<close> and a valid axis (negative axes counted from the end)
  of extent \<open>d > 0\<close>: if \<open>k\<close> does not divide \<open>d\<close>, \<open>split\<close> raises \<open>ValueError\<close> and
  the state is untouched, so nothing was dispatched; otherwise it subscripts the array
  \<open>k\<close> times, the \<open>i\<close>-th time with the run \<open>[i * (d div k), i * (d div k) + d div k)\<close> on
  the axis and the full range elsewhere, in ascending order, and returns the \<open>k\<close> results
  in that order.
\<close>

theorem split_equal_sections:
  assumes "0 < k"
    and "axis_ok (length (shape ary)) axis"
    and "ax = norm_axis (length (shape ary)) axis"
    and "d = shape ary ! ax"
    and "0 < d"
  shows "(int d mod k \<noteq> 0 \<longrightarrow>
            split getitem ary (Sections k) axis s =
              (Inl (ValueError ''ary axis %s cannot be split into %s equal arrays.''), s))
       \<and> (int d mod k = 0 \<and>
            slices_return getitem ary
              (map (run_slice (length (shape ary)) ax (d div nat k)) [0..<nat k]) s parts s' \<longrightarrow>
            split getitem ary (Sections k) axis s = (Inr parts, s') \<and> length parts = nat k)"
proof (intro conjI impI)
  assume "int d mod k \<noteq> 0"
  then show "split getitem ary (Sections k) axis s =
      (Inl (ValueError ''ary axis %s cannot be split into %s equal arrays.''), s)"
    using assms by (simp add: split_def py_index_def)
next
  assume a: "int d mod k = 0 \<and>
      slices_return getitem ary
        (map (run_slice (length (shape ary)) ax (d div nat k)) [0..<nat k]) s parts s'"
  then have dv: "int d mod k = 0" and
    sr: "slices_return getitem ary
        (map (run_slice (length (shape ary)) ax (d div nat k)) [0..<nat k]) s parts s'" by auto
  have rg: "py_range 0 (int d) (int d div k) = Inr (map (\<lambda>j. int (j * (d div nat k))) [0..<nat k])"
    using py_range_sections[OF assms(1) assms(5) dv] .
  have dp: "int d div k = int (d div nat k)" using assms(1) by (simp add: zdiv_int)
  have "split_loop getitem ary ax (int (d div nat k)) (map (\<lambda>j. int (j * (d div nat k))) [0..<nat k])
          (map (\<lambda>d. Slice None None 1) (shape ary)) [] s = (Inr ([] @ parts), s')"
    by (rule split_loop_run) (simp only: run_slice_eq sr)
  then show "split getitem ary (Sections k) axis s = (Inr parts, s')"
    using assms dv rg dp by (simp add: split_def py_index_def)
  show "length parts = nat k" using slices_return_length[OF sr] by simp
qed

theorem split_equal_sections_witness: 
  "split demo_getitem \<lparr>shape = [4, 6], block_shape = [2, 2], grid = ()\<rparr> (Sections 4) (- 1) []
     = (Inl (ValueError ''ary axis %s cannot be split into %s equal arrays.''), [])
  \<and> split demo_getitem \<lparr>shape = [4, 6], block_shape = [2, 2], grid = ()\<rparr> (Sections 3) (- 1) []
   = (Inr [\<lparr>shape = [4, 2], block_shape = [2, 2], grid = ()\<rparr>,
           \<lparr>shape = [4, 2], block_shape = [2, 2], grid = ()\<rparr>,
           \<lparr>shape = [4, 2], block_shape = [2, 2], grid = ()\<rparr>],
      [[Slice None None 1, Slice (Some 0) (Some 2) 1],
       [Slice None None 1, Slice (Some 2) (Some 4) 1],
       [Slice None None 1, Slice (Some 4) (Some 6) 1]])"
proof -
  let ?ary = "\<lparr>shape = [4, 6], block_shape = [2, 2], grid = ()\<rparr> :: unit BlockArray"
  let ?parts = "[\<lparr>shape = [4, 2], block_shape = [2, 2], grid = ()\<rparr>,
           \<lparr>shape = [4, 2], block_shape = [2, 2], grid = ()\<rparr>,
           \<lparr>shape = [4, 2], block_shape = [2, 2], grid = ()\<rparr>] :: unit BlockArray list"
  let ?log = "[[Slice None None 1, Slice (Some 0) (Some 2) 1],
       [Slice None None 1, Slice (Some 2) (Some 4) 1],
       [Slice None None 1, Slice (Some 4) (Some 6) 1]]"
  have a: "axis_ok (length (shape ?ary)) (- 1)" by (simp add: axis_ok_def)
  have b: "(1::nat) = norm_axis (length (shape ?ary)) (- 1)" by (simp add: norm_axis_def)
  have c: "(6::nat) = shape ?ary ! 1" by simp
  have m4: "int 6 mod 4 \<noteq> 0" by simp
  have m3: "int 6 mod 3 = 0" by simp
  have sr: "slices_return demo_getitem ?ary
              (map (run_slice (length (shape ?ary)) 1 (6 div nat 3)) [0..<nat 3]) [] ?parts ?log"
    by code_simp
  have k4: "(0::int) < 4" and k3: "(0::int) < 3" and d: "(0::nat) < 6" by simp_all
  from split_equal_sections[OF k4 a b c d, of demo_getitem "[]"] m4
  have r1: "split demo_getitem ?ary (Sections 4) (- 1) []
     = (Inl (ValueError ''ary axis %s cannot be split into %s equal arrays.''), [])" by blast
  from split_equal_sections[OF k3 a b c d, of demo_getitem "[]" ?parts ?log] m3 sr
  have r2: "split demo_getitem ?ary (Sections 3) (- 1) [] = (Inr ?parts, ?log)" by blast
  from r1 r2 show ?thesis by blast
qed

section \<open>Properties of concatenate\<close>

lemma mode_fold:
  "fold (\<lambda>score (oldmostfreq, oldcounts).
                  let counts = count_list a score
                  in (if oldcounts < counts then score else oldmostfreq, max counts oldcounts)) ys (m, c) = (m', c')
   \<Longrightarrow> c \<le> c' \<and> (\<forall>y\<in>set ys. count_list a y \<le> c') \<and> ((m' = m \<and> c' = c) \<or> (m' \<in> set ys \<and> count_list a m' = c'))"
proof (induction ys arbitrary: m c)
  case Nil
  then show ?case by simp
next
  case (Cons y ys)
  then show ?case
    by (fastforce simp: Let_def split: if_splits)
qed

lemma mode_scipy_most_common:
  assumes "a \<noteq> []"
  shows "mode_scipy a \<in> set a \<and> (\<forall>x. count_list a x \<le> count_list a (mode_scipy a))"
proof -
  obtain m' c' where f: "fold (\<lambda>score (oldmostfreq, oldcounts).
                  let counts = count_list a score
                  in (if oldcounts < counts then score else oldmostfreq, max counts oldcounts)) (sort (remdups a)) (0, 0) = (m', c')"
    by (cases "fold (\<lambda>score (oldmostfreq, oldcounts).
                  let counts = count_list a score
                  in (if oldcounts < counts then score else oldmostfreq, max counts oldcounts)) (sort (remdups a)) (0, 0)") auto
  from mode_fold[OF f] have
    le: "\<forall>y\<in>set a. count_list a y \<le> c'" and
    dj: "(m' = 0 \<and> c' = 0) \<or> (m' \<in> set a \<and> count_list a m' = c')" by auto
  from assms obtain y where y: "y \<in> set a" by (cases a) auto
  then have "0 < count_list a y" by (metis count_list_0_iff gr0I)
  with le y have "0 < c'" by fastforce
  with dj have m: "m' \<in> set a" "count_list a m' = c'" by auto
  have "count_list a x \<le> c'" for x
  proof (cases "x \<in> set a")
    case True with le show ?thesis by simp
  next
    case False then show ?thesis by (simp add: count_list_0_iff)
  qed
  with m f show ?thesis by (simp add: mode_scipy_def)
qed

lemma collect_all_ok:
  "\<forall>r\<in>set rs. \<exists>x. r = Inr x \<Longrightarrow> collect rs = Inr (map projr rs)"
  by (induction rs) auto

text \<open>
  C6. For a non-empty list of arrays and an axis valid for each of them, \<open>concatenate\<close>
  is exactly the application's concatenation called with one on-axis block size, and that
  size is one of the inputs' \<open>block_shape[axis]\<close> that no other value occurs more often
  than.
\<close>

theorem concatenate_passes_most_common_block_size:
  assumes "arrays \<noteq> []"
    and "\<forall>arr\<in>set arrays. axis_ok (length (block_shape arr)) axis"
    and "sizes = map (\<lambda>arr. block_shape arr ! norm_axis (length (block_shape arr)) axis) arrays"
  shows "concatenate app_concatenate arrays axis None s
           = app_concatenate arrays axis (mode_scipy sizes) s
       \<and> mode_scipy sizes \<in> set sizes
       \<and> (\<forall>b. count_list sizes b \<le> count_list sizes (mode_scipy sizes))"
proof -
  have "collect (map (\<lambda>arr. py_index (block_shape arr) axis) arrays) = Inr sizes"
  proof -
    have "\<forall>r\<in>set (map (\<lambda>arr. py_index (block_shape arr) axis) arrays). \<exists>x. r = Inr x"
      using assms(2) by (auto simp: py_index_def)
    from collect_all_ok[OF this] show ?thesis
      using assms(2,3) by (simp add: py_index_def comp_def)
  qed
  moreover have ne: "sizes \<noteq> []" using assms(1,3) by simp
  ultimately have "concatenate app_concatenate arrays axis None s
           = app_concatenate arrays axis (mode_scipy sizes) s"
    by (simp add: concatenate_def)
  with mode_scipy_most_common[OF ne] show ?thesis by simp
qed

theorem concatenate_passes_most_common_block_size_witness: "concatenate (\<lambda>arrays axis axis_block_size s. (Inr axis_block_size, s @ [axis_block_size]))
        [\<lparr>shape = [4, 4], block_shape = [2, 4], grid = ()\<rparr>,
         \<lparr>shape = [6, 4], block_shape = [3, 4], grid = ()\<rparr>,
         \<lparr>shape = [2, 4], block_shape = [2, 4], grid = ()\<rparr>] 0 (None :: unit option) []
      = (Inr 2, [2])"
proof -
  let ?as = "[\<lparr>shape = [4, 4], block_shape = [2, 4], grid = ()\<rparr>,
         \<lparr>shape = [6, 4], block_shape = [3, 4], grid = ()\<rparr>,
         \<lparr>shape = [2, 4], block_shape = [2, 4], grid = ()\<rparr>] :: unit BlockArray list"
  have a: "?as \<noteq> []" by simp
  have b: "\<forall>arr\<in>set ?as. axis_ok (length (block_shape arr)) 0" by (simp add: axis_ok_def)
  have c: "[2, 3, 2] = map (\<lambda>arr. block_shape arr ! norm_axis (length (block_shape arr)) 0) ?as"
    by (simp add: norm_axis_def)
  have m: "mode_scipy [2, 3, 2] = 2" by code_simp
  from concatenate_passes_most_common_block_size[OF a b c,
      of "\<lambda>arrays axis axis_block_size s. (Inr axis_block_size, s @ [axis_block_size])" "[]"]
  have "concatenate (\<lambda>arrays axis axis_block_size s. (Inr axis_block_size, s @ [axis_block_size]))
          ?as 0 (None :: unit option) [] = (Inr (mode_scipy [2, 3, 2]), [] @ [mode_scipy [2, 3, 2]])"
    by blast
  then show ?thesis by (simp only: m append_Nil)
qed

section \<open>Properties of loadtxt\<close>

text \<open>
  Outside the statement below: an exception that is not an instance of \<open>Exception\<close> passes
  through the handler.
\<close>

lemma loadtxt_propagates_base_exception:
  assumes "get_instance env s = (Inr app, s1)"
    and "get_num_cores env app s1 = (Inr num_rows, s2)"
    and "app_loadtxt env app fname dtype kw num_rows s2 = (Inl e, s3)"
    and "\<not> is_Exception e"
  shows "loadtxt env fname dtype kw s = (Inl e, s3)"
  using assms by (simp add: loadtxt_def loadtxt_parallel_def)

text \<open>
  C7. When the application's parallel \<open>loadtxt\<close> raises an exception (an instance of
  \<open>Exception\<close>), \<open>loadtxt\<close> is the handler run from the state the failure left: the
  exception is dropped; and when the warning, numpy's local parse, the block-shape
  computation and the array construction return, \<open>loadtxt\<close> returns that array, built from
  the locally parsed data with the block shape computed for its shape and dtype.
\<close>

theorem loadtxt_falls_back_to_local_parse:
  assumes "get_instance env s = (Inr app, s1)"
    and "get_num_cores env app s1 = (Inr num_rows, s2)"
    and "app_loadtxt env app fname dtype kw num_rows s2 = (Inl e, s3)"
    and "is_Exception e"
  shows "loadtxt env fname dtype kw s = loadtxt_local env app fname dtype kw s3
       \<and> (warnings_warn env ''Failed to load text data in parallel; using np.loadtxt locally.'' s3
              = (Inr (), s4)
            \<and> np_loadtxt env fname dtype kw s4 = (Inr np_arr, s5)
            \<and> compute_block_shape env app (np_shape env np_arr) dtype s5 = (Inr bshape, s6)
            \<and> app_array env app np_arr bshape s6 = (Inr ba, s7)
          \<longrightarrow> loadtxt env fname dtype kw s = (Inr ba, s7))"
  using assms by (simp add: loadtxt_def loadtxt_parallel_def loadtxt_local_def)

theorem loadtxt_falls_back_to_local_parse_witness:
  "is_Exception (OtherException ''no worker reachable'')
   \<and> loadtxt demo_loadtxt_env ''data.txt'' () () []
       = (Inr \<lparr>shape = [3, 2], block_shape = [3, 2], grid = [[1, 2], [3, 4], [5, 6]]\<rparr>,
          [''app.loadtxt'', ''Failed to load text data in parallel; using np.loadtxt locally.'',
           ''np.loadtxt'', ''app.array''])"
proof -
  have a: "get_instance demo_loadtxt_env [] = (Inr (), [])"
    and b: "get_num_cores demo_loadtxt_env () [] = (Inr 4, [])"
    and c: "app_loadtxt demo_loadtxt_env () ''data.txt'' () () 4 []
              = (Inl (OtherException ''no worker reachable''), [''app.loadtxt''])"
    and d: "is_Exception (OtherException ''no worker reachable'')"
    by (simp_all add: demo_loadtxt_env_def)
  have e: "warnings_warn demo_loadtxt_env
                ''Failed to load text data in parallel; using np.loadtxt locally.'' [''app.loadtxt'']
              = (Inr (), [''app.loadtxt'',
                          ''Failed to load text data in parallel; using np.loadtxt locally.''])
     \<and> np_loadtxt demo_loadtxt_env ''data.txt'' () ()
           [''app.loadtxt'', ''Failed to load text data in parallel; using np.loadtxt locally.'']
         = (Inr [[1, 2], [3, 4], [5, 6]],
            [''app.loadtxt'', ''Failed to load text data in parallel; using np.loadtxt locally.'',
             ''np.loadtxt''])
     \<and> compute_block_shape demo_loadtxt_env () (np_shape demo_loadtxt_env [[1, 2], [3, 4], [5, 6]]) ()
           [''app.loadtxt'', ''Failed to load text data in parallel; using np.loadtxt locally.'',
            ''np.loadtxt'']
         = (Inr [3, 2],
            [''app.loadtxt'', ''Failed to load text data in parallel; using np.loadtxt locally.'',
             ''np.loadtxt''])
     \<and> app_array demo_loadtxt_env () [[1, 2], [3, 4], [5, 6]] [3, 2]
           [''app.loadtxt'', ''Failed to load text data in parallel; using np.loadtxt locally.'',
            ''np.loadtxt'']
         = (Inr \<lparr>shape = [3, 2], block_shape = [3, 2], grid = [[1, 2], [3, 4], [5, 6]]\<rparr>,
            [''app.loadtxt'', ''Failed to load text data in parallel; using np.loadtxt locally.'',
             ''np.loadtxt'', ''app.array''])"
    by (simp add: demo_loadtxt_env_def)
  from loadtxt_falls_back_to_local_parse[OF a b c d] e d show ?thesis by blast
qed

section \<open>Properties of the application singleton\<close>

lemma make_system_ok: "settings_ok st \<Longrightarrow> \<exists>sys. make_system st = Inr sys"
  by (auto simp: settings_ok_def make_system_def)

lemma make_device_grid_ok: "settings_ok st \<Longrightarrow> \<exists>dg. make_device_grid st devs = Inr dg"
  by (auto simp: settings_ok_def make_device_grid_def)

lemma create_fresh:
  assumes "settings_ok st" and "instance_var g = None"
  shows "\<exists>a g1. create st devices g = (Inr a, g1) \<and> app_id a = next_id g
          \<and> next_id g1 = Suc (next_id g) \<and> instance_var g1 = None
          \<and> call_on_create_var g1 = call_on_create_var g \<and> hook_state g1 = hook_state g
          \<and> (\<exists>sys. events g1 = events g @ [ConfigureLogging, SystemInit sys, ComputeManagerCreate])"
proof -
  from make_system_ok[OF assms(1)] obtain sys where s: "make_system st = Inr sys" by blast
  from make_device_grid_ok[OF assms(1)] obtain dg where d: "make_device_grid st (devices sys) = Inr dg"
    by blast
  have c: "compute_name st = ''numpy''" using assms(1) by (simp add: settings_ok_def)
  show ?thesis using assms(2) s d c
    by (simp add: create_def configure_logging_def Let_def)
qed

lemma run_hooks_all:
  "\<forall>func\<in>set funcs. \<forall>w. fst (func a w) = None \<Longrightarrow>
     run_hooks funcs a w = (None, invoke_all funcs a w)"
proof (induction funcs arbitrary: w)
  case Nil
  then show ?case by (simp add: invoke_all_def)
next
  case (Cons f fs)
  then have "fst (f a w) = None" by simp
  then obtain w' where fw: "f a w = (None, w')" by (cases "f a w") auto
  with Cons show ?case by (simp add: invoke_all_def)
qed

lemma instance_var_destroy: "instance_var (destroy g) = None"
  by (simp add: destroy_def split: option.splits)

lemma instance_builds:
  assumes "settings_ok st" and "instance_var g = None"
  shows "\<exists>a g1 sys. create st devices g = (Inr a, g1) \<and> app_id a = next_id g
           \<and> instance_var (snd (instance' st devices g)) = Some a
           \<and> call_on_create_var (snd (instance' st devices g)) = call_on_create_var g
           \<and> events (snd (instance' st devices g))
                = events g @ [ConfigureLogging, SystemInit sys, ComputeManagerCreate]
           \<and> fst (instance' st devices g)
                = (case fst (run_hooks (call_on_create_var g) a (hook_state g)) of
                     None \<Rightarrow> Inr a | Some e \<Rightarrow> Inl e)
           \<and> hook_state (snd (instance' st devices g))
                = snd (run_hooks (call_on_create_var g) a (hook_state g))"
proof -
  from create_fresh[OF assms, of devices] obtain a g1 sys where
    c: "create st devices g = (Inr a, g1)" and i: "app_id a = next_id g"
    and h: "call_on_create_var g1 = call_on_create_var g" and u: "hook_state g1 = hook_state g"
    and e: "events g1 = events g @ [ConfigureLogging, SystemInit sys, ComputeManagerCreate]"
    by blast
  show ?thesis
    using assms(2) c i h u e
    by (cases "run_hooks (call_on_create_var g) a (hook_state g)")
       (auto simp: instance'_def Let_def split: option.splits)
qed

lemma demo_ok: "settings_ok demo_settings"
  by (simp add: settings_ok_def demo_settings_def)

text \<open>
  C8. A call of \<open>instance\<close> that returned is followed only by calls returning the same
  object in an unchanged state (nothing is constructed again); with an instance in place
  \<open>instance\<close> returns it, and \<open>create\<close> raises and leaves \<open>_instance\<close> as it is; \<open>destroy\<close>
  without an instance changes nothing; after \<open>destroy\<close> the module is not initialized, and
  the next \<open>instance\<close> constructs a new application, different from the destroyed one.
\<close>

theorem singleton_lifecycle:
  "(instance' st devices g = (Inr a, g1) \<longrightarrow> instance' st devices g1 = (Inr a, g1))
   \<and> (instance_var g = Some a \<longrightarrow>
        instance' st devices g = (Inr a, g)
        \<and> create st devices g
            = (Inl (Exception ''create() called more than once.''), configure_logging g)
        \<and> instance_var (configure_logging g) = Some a)
   \<and> (instance_var g = None \<longrightarrow> destroy g = g)
   \<and> \<not> is_initialized (destroy g)
   \<and> (settings_ok st \<and> wf_manager g \<longrightarrow>
        (\<exists>b sys. instance_var (snd (instance' st devices (destroy g))) = Some b
           \<and> instance_var g \<noteq> Some b
           \<and> app_id b = next_id g
           \<and> events (snd (instance' st devices (destroy g)))
                = events (destroy g) @ [ConfigureLogging, SystemInit sys, ComputeManagerCreate]))"
proof (intro conjI impI)
  assume r: "instance' st devices g = (Inr a, g1)"
  have "instance_var g1 = Some a"
    using r by (auto simp: instance'_def Let_def split: option.splits sum.splits prod.splits)
  then show "instance' st devices g1 = (Inr a, g1)" by (simp add: instance'_def)
next
  assume "instance_var g = Some a"
  then show "instance' st devices g = (Inr a, g)" by (simp add: instance'_def)
next
  assume "instance_var g = Some a"
  then show "create st devices g
            = (Inl (Exception ''create() called more than once.''), configure_logging g)"
    by (simp add: create_def configure_logging_def)
next
  assume "instance_var g = Some a"
  then show "instance_var (configure_logging g) = Some a" by (simp add: configure_logging_def)
next
  assume "instance_var g = None"
  then show "destroy g = g" by (simp add: destroy_def)
next
  show "\<not> is_initialized (destroy g)" by (simp add: is_initialized_def instance_var_destroy)
next
  assume a: "settings_ok st \<and> wf_manager g"
  have n: "next_id (destroy g) = next_id g" by (simp add: destroy_def split: option.splits)
  from a instance_builds[OF _ instance_var_destroy, of st devices g] obtain b sys where
    "instance_var (snd (instance' st devices (destroy g))) = Some b" "app_id b = next_id g"
    "events (snd (instance' st devices (destroy g)))
       = events (destroy g) @ [ConfigureLogging, SystemInit sys, ComputeManagerCreate]"
    using n by auto
  moreover from this a have "instance_var g \<noteq> Some b" by (auto simp: wf_manager_def)
  ultimately show "\<exists>b sys. instance_var (snd (instance' st devices (destroy g))) = Some b
           \<and> instance_var g \<noteq> Some b
           \<and> app_id b = next_id g
           \<and> events (snd (instance' st devices (destroy g)))
                = events (destroy g) @ [ConfigureLogging, SystemInit sys, ComputeManagerCreate]"
    by blast
qed

theorem singleton_lifecycle_witness:
  "instance' demo_settings demo_devices (demo_manager None 0)
     = (Inr (demo_app 0),
        (demo_manager (Some (demo_app 0)) 1)
          \<lparr>events := [ConfigureLogging, SystemInit (SerialSystem (Some 4)), ComputeManagerCreate],
            hook_state := [(''first'', 0), (''second'', 0)]\<rparr>)
   \<and> instance' demo_settings demo_devices
        ((demo_manager (Some (demo_app 0)) 1)
          \<lparr>events := [ConfigureLogging, SystemInit (SerialSystem (Some 4)), ComputeManagerCreate],
            hook_state := [(''first'', 0), (''second'', 0)]\<rparr>)
     = (Inr (demo_app 0),
        (demo_manager (Some (demo_app 0)) 1)
          \<lparr>events := [ConfigureLogging, SystemInit (SerialSystem (Some 4)), ComputeManagerCreate],
            hook_state := [(''first'', 0), (''second'', 0)]\<rparr>)
   \<and> fst (create demo_settings demo_devices (demo_manager (Some (demo_app 0)) 1))
       = Inl (Exception ''create() called more than once.'')
   \<and> destroy (demo_manager None 1) = demo_manager None 1
   \<and> settings_ok demo_settings \<and> wf_manager (demo_manager (Some (demo_app 0)) 1)
   \<and> instance_var (snd (instance' demo_settings demo_devices
                            (destroy (demo_manager (Some (demo_app 0)) 1))))
       = Some (demo_app 1)"
proof -
  let ?g1 = "(demo_manager (Some (demo_app 0)) 1)
          \<lparr>events := [ConfigureLogging, SystemInit (SerialSystem (Some 4)), ComputeManagerCreate],
            hook_state := [(''first'', 0), (''second'', 0)]\<rparr>"
  have first: "instance' demo_settings demo_devices (demo_manager None 0) = (Inr (demo_app 0), ?g1)"
    by (simp add: instance'_def create_def configure_logging_def make_system_def
          make_device_grid_def demo_settings_def demo_devices_def demo_manager_def demo_app_def demo_cm_def
          log_hook_def Let_def)
  have wf: "wf_manager (demo_manager (Some (demo_app 0)) 1)"
    by (simp add: wf_manager_def demo_manager_def demo_app_def demo_cm_def)
  have none: "instance_var (demo_manager None 1) = None" by (simp add: demo_manager_def)
  have some: "instance_var (demo_manager (Some (demo_app 0)) 1) = Some (demo_app 0)"
    by (simp add: demo_manager_def)
  have again: "instance' demo_settings demo_devices ?g1 = (Inr (demo_app 0), ?g1)"
    using singleton_lifecycle[of demo_settings demo_devices "demo_manager None 0" "demo_app 0" ?g1]
      first by blast
  have cr: "fst (create demo_settings demo_devices (demo_manager (Some (demo_app 0)) 1))
       = Inl (Exception ''create() called more than once.'')"
    using singleton_lifecycle[of demo_settings demo_devices "demo_manager (Some (demo_app 0)) 1"
        "demo_app 0"] some by simp
  have de: "destroy (demo_manager None 1) = demo_manager None 1"
    using singleton_lifecycle[of demo_settings demo_devices "demo_manager None 1"] none by blast
  obtain b where b: "instance_var (snd (instance' demo_settings demo_devices
                            (destroy (demo_manager (Some (demo_app 0)) 1)))) = Some b"
      "app_id b = next_id (demo_manager (Some (demo_app 0)) 1)"
    using singleton_lifecycle[of demo_settings demo_devices "demo_manager (Some (demo_app 0)) 1"]
      demo_ok wf by blast
  have "instance_var (snd (instance' demo_settings demo_devices
                            (destroy (demo_manager (Some (demo_app 0)) 1)))) = Some (demo_app 1)"
    by (simp add: instance'_def create_def configure_logging_def make_system_def
          make_device_grid_def demo_settings_def demo_devices_def demo_manager_def demo_app_def demo_cm_def
          log_hook_def destroy_def Let_def)
  with first again cr de demo_ok wf show ?thesis by blast
qed

text \<open>
  C9. \<open>call_on_create\<close> always appends the hook to the list; with an instance in place
  it also invokes it at once with that instance. \<open>destroy\<close> and \<open>instance\<close> leave the list as
  it is, and an \<open>instance\<close> that creates an application invokes every hook of the list on
  it, in registration order (provided no hook raises).
\<close>

theorem hooks_persist_and_run_in_order:
  "call_on_create_var (snd (call_on_create func g)) = call_on_create_var g @ [func]
   \<and> (instance_var g = Some a \<longrightarrow>
         hook_state (snd (call_on_create func g)) = snd (func a (hook_state g)))
   \<and> (instance_var g = None \<longrightarrow> hook_state (snd (call_on_create func g)) = hook_state g)
   \<and> call_on_create_var (destroy g) = call_on_create_var g
   \<and> call_on_create_var (snd (instance' st devices g)) = call_on_create_var g
   \<and> (settings_ok st \<and> instance_var g = None
        \<and> (\<forall>f\<in>set (call_on_create_var g). \<forall>b w. fst (f b w) = None) \<longrightarrow>
        (\<exists>b g1. instance' st devices g = (Inr b, g1) \<and> instance_var g1 = Some b
           \<and> app_id b = next_id g
           \<and> hook_state g1 = invoke_all (call_on_create_var g) b (hook_state g)))"
proof (intro conjI impI)
  show "call_on_create_var (snd (call_on_create func g)) = call_on_create_var g @ [func]"
    by (auto simp: call_on_create_def Let_def split: option.splits prod.splits)
next
  assume "instance_var g = Some a"
  then show "hook_state (snd (call_on_create func g)) = snd (func a (hook_state g))"
    by (auto simp: call_on_create_def Let_def split: option.splits prod.splits)
next
  assume "instance_var g = None"
  then show "hook_state (snd (call_on_create func g)) = hook_state g"
    by (simp add: call_on_create_def Let_def)
next
  show "call_on_create_var (destroy g) = call_on_create_var g"
    by (simp add: destroy_def split: option.splits)
next
  show "call_on_create_var (snd (instance' st devices g)) = call_on_create_var g"
    by (auto simp: instance'_def create_def configure_logging_def Let_def
             split: option.splits sum.splits prod.splits if_splits)
next
  assume a: "settings_ok st \<and> instance_var g = None
        \<and> (\<forall>f\<in>set (call_on_create_var g). \<forall>b w. fst (f b w) = None)"
  then have s: "settings_ok st" and n: "instance_var g = None"
    and h: "\<forall>f\<in>set (call_on_create_var g). \<forall>b w. fst (f b w) = None" by auto
  from instance_builds[OF s n, of devices] obtain b where
    i: "instance_var (snd (instance' st devices g)) = Some b" and d: "app_id b = next_id g"
    and f: "fst (instance' st devices g)
                = (case fst (run_hooks (call_on_create_var g) b (hook_state g)) of
                     None \<Rightarrow> Inr b | Some e \<Rightarrow> Inl e)"
    and u: "hook_state (snd (instance' st devices g))
                = snd (run_hooks (call_on_create_var g) b (hook_state g))"
    by blast
  have "run_hooks (call_on_create_var g) b (hook_state g)
          = (None, invoke_all (call_on_create_var g) b (hook_state g))"
    by (rule run_hooks_all) (use h in blast)
  with f u have "fst (instance' st devices g) = Inr b"
    "hook_state (snd (instance' st devices g)) = invoke_all (call_on_create_var g) b (hook_state g)"
    by simp_all
  with i d show "\<exists>b g1. instance' st devices g = (Inr b, g1) \<and> instance_var g1 = Some b
           \<and> app_id b = next_id g
           \<and> hook_state g1 = invoke_all (call_on_create_var g) b (hook_state g)"
    by (metis prod.collapse)
qed

theorem hooks_persist_and_run_in_order_witness:
  "settings_ok demo_settings \<and> instance_var (demo_manager None 7) = None
   \<and> (\<exists>b g1. instance' demo_settings demo_devices (demo_manager None 7) = (Inr b, g1)
         \<and> app_id b = 7 \<and> hook_state g1 = [(''first'', 7), (''second'', 7)])
   \<and> hook_state (snd (call_on_create (log_hook ''third'') (demo_manager (Some (demo_app 7)) 8)))
       = [(''third'', 7)]
   \<and> call_on_create_var (destroy (snd (call_on_create (log_hook ''third'')
                                          (demo_manager (Some (demo_app 7)) 8))))
       = [log_hook ''first'', log_hook ''second'', log_hook ''third'']"
proof -
  let ?g = "demo_manager None 7 :: (string \<times> nat) list manager"
  let ?h = "demo_manager (Some (demo_app 7)) 8 :: (string \<times> nat) list manager"
  have n: "instance_var ?g = None" by (simp add: demo_manager_def)
  have q: "\<forall>f\<in>set (call_on_create_var ?g). \<forall>b w. fst (f b w) = None"
    by (simp add: demo_manager_def log_hook_def)
  from hooks_persist_and_run_in_order[of "log_hook ''third''" ?g "demo_app 7" demo_settings demo_devices]
    demo_ok n q
  obtain b g1 where r: "instance' demo_settings demo_devices ?g = (Inr b, g1)" "app_id b = next_id ?g"
    "hook_state g1 = invoke_all (call_on_create_var ?g) b (hook_state ?g)" by blast
  have e1: "\<exists>b g1. instance' demo_settings demo_devices ?g = (Inr b, g1)
         \<and> app_id b = 7 \<and> hook_state g1 = [(''first'', 7), (''second'', 7)]"
    using r by (simp add: invoke_all_def demo_manager_def log_hook_def)
  have s: "instance_var ?h = Some (demo_app 7)" by (simp add: demo_manager_def)
  from hooks_persist_and_run_in_order[of "log_hook ''third''" ?h "demo_app 7" demo_settings demo_devices] s
  have "hook_state (snd (call_on_create (log_hook ''third'') ?h))
          = snd (log_hook ''third'' (demo_app 7) (hook_state ?h))"
    and c: "call_on_create_var (snd (call_on_create (log_hook ''third'') ?h))
          = call_on_create_var ?h @ [log_hook ''third'']" by blast+
  then have e2: "hook_state (snd (call_on_create (log_hook ''third'') ?h)) = [(''third'', 7)]"
    by (simp add: demo_manager_def log_hook_def demo_app_def)
  from hooks_persist_and_run_in_order[of "log_hook ''third''" "snd (call_on_create (log_hook ''third'') ?h)"
      "demo_app 7" demo_settings demo_devices] c
  have e3: "call_on_create_var (destroy (snd (call_on_create (log_hook ''third'') ?h)))
       = [log_hook ''first'', log_hook ''second'', log_hook ''third'']"
    by (simp add: demo_manager_def)
  from demo_ok n e1 e2 e3 show ?thesis by blast
qed

section \<open>Properties of the cyclic device grid\<close>

lemma concat_rows_upt:
  "concat (map (\<lambda>x. map (\<lambda>i. x * m + i) [0..<m]) [0..<n]) = [0..<n * m]"
proof (induction n)
  case 0
  then show ?case by simp
next
  case (Suc n)
  have "map (\<lambda>i. n * m + i) [0..<m] = [n * m..<n * m + m]"
    using map_add_upt[of "n * m" m] by (simp add: add.commute)
  moreover have "[0..<n * m + m] = [0..<n * m] @ [n * m..<n * m + m]"
    using upt_add_eq_append[of 0 "n * m" m] by simp
  ultimately show ?case using Suc by (simp add: add.commute)
qed

lemma ravel_grid_coordinates:
  "map (ravel_index sh) (grid_coordinates sh) = [0..<prod_list sh]"
proof (induction sh)
  case Nil
  then show ?case by (simp add: grid_coordinates_def)
next
  case (Cons n ns)
  have "map (ravel_index (n # ns)) (grid_coordinates (n # ns))
        = concat (map (\<lambda>x. map (\<lambda>c. x * prod_list ns + ravel_index ns c) (grid_coordinates ns))
                      [0..<n])"
    by (simp add: grid_coordinates_def map_concat comp_def)
  also have "\<dots> = concat (map (\<lambda>x. map (\<lambda>i. x * prod_list ns + i)
                                        (map (ravel_index ns) (grid_coordinates ns))) [0..<n])"
    by (simp add: comp_def)
  also have "\<dots> = [0..<n * prod_list ns]"
    unfolding Cons.IH by (rule concat_rows_upt)
  finally show ?case by simp
qed

lemma length_grid_coordinate:
  "c \<in> set (grid_coordinates sh) \<Longrightarrow> length c = length sh"
  unfolding grid_coordinates_def
  by (induction sh arbitrary: c) auto

lemma count_mod:
  assumes "k < n"
  shows "length (filter (\<lambda>i. i mod n = k) [0..<p]) = p div n + (if k < p mod n then 1 else 0)"
proof (induction p)
  case 0
  then show ?case by simp
next
  case (Suc p)
  have n0: "0 < n" using assms by simp
  have pm: "p mod n < n" using n0 by simp
  show ?case
  proof (cases "Suc (p mod n) = n")
    case True
    then have "Suc p mod n = 0" "Suc p div n = Suc (p div n)"
      by (simp_all add: mod_Suc div_Suc)
    moreover have "k < p mod n \<or> k = p mod n" using True assms by linarith
    ultimately show ?thesis using Suc True by auto
  next
    case False
    then have "Suc p mod n = Suc (p mod n)" "Suc p div n = p div n"
      by (simp_all add: mod_Suc div_Suc)
    then show ?thesis using Suc by auto
  qed
qed

lemma fit_cluster_shape_same: "fit_cluster_shape sh (length sh) = sh"
  by (simp add: fit_cluster_shape_def)

lemma get_device_on_grid:
  assumes "devices \<noteq> []"
  shows "map (cyclic_get_device sh devices) (grid_coordinates sh)
         = map (\<lambda>i. Inr (devices ! (i mod length devices))) [0..<prod_list sh]"
proof -
  have "map (cyclic_get_device sh devices) (grid_coordinates sh)
        = map (\<lambda>c. Inr (devices ! (ravel_index sh c mod length devices))) (grid_coordinates sh)"
    using assms
    by (simp add: cyclic_get_device_def length_grid_coordinate fit_cluster_shape_same)
  also have "\<dots> = map (\<lambda>i. Inr (devices ! (i mod length devices)))
                     (map (ravel_index sh) (grid_coordinates sh))"
    by (simp add: comp_def)
  finally show ?thesis by (simp only: ravel_grid_coordinates)
qed

lemma device_load_formula:
  assumes "distinct devices" and "k < length devices"
  shows "device_load sh devices (devices ! k)
         = prod_list sh div length devices
           + (if k < prod_list sh mod length devices then 1 else 0)"
proof -
  have ne: "devices \<noteq> []" using assms(2) by auto
  have "device_load sh devices (devices ! k)
        = length (filter (\<lambda>r. r = Inr (devices ! k))
                    (map (cyclic_get_device sh devices) (grid_coordinates sh)))"
    by (simp add: device_load_def filter_map comp_def)
  also have "\<dots> = length (filter (\<lambda>i. devices ! (i mod length devices) = devices ! k)
                              [0..<prod_list sh])"
    by (simp add: get_device_on_grid[OF ne] filter_map comp_def)
  also have "\<dots> = length (filter (\<lambda>i. i mod length devices = k) [0..<prod_list sh])"
  proof -
    have "devices ! (i mod length devices) = devices ! k \<longleftrightarrow> i mod length devices = k" for i
      using assms ne by (simp add: nth_eq_iff_index_eq)
    then show ?thesis by simp
  qed
  finally show ?thesis using count_mod[OF assms(2)] by simp
qed

text \<open>
  C3. For a non-empty list of distinct devices, the cyclic policy gives the \<open>i\<close>-th
  coordinate of the cluster grid, counted in row-major order, the device
  \<open>devices[i mod N]\<close>; being a function of the coordinate alone it answers the same on
  every call; and the numbers of grid coordinates assigned to any two devices of the list
  differ by at most one.
\<close>

theorem cyclic_get_device_round_robin:
  assumes "devices \<noteq> []" and "distinct devices"
    and "d1 \<in> set devices" and "d2 \<in> set devices"
  shows "map (cyclic_get_device cshape devices) (grid_coordinates cshape)
           = map (\<lambda>i. Inr (devices ! (i mod length devices))) [0..<prod_list cshape]
       \<and> device_load cshape devices d1 \<le> device_load cshape devices d2 + 1"
proof -
  from assms(3) obtain k1 where k1: "k1 < length devices" "devices ! k1 = d1"
    by (auto simp: in_set_conv_nth)
  from assms(4) obtain k2 where k2: "k2 < length devices" "devices ! k2 = d2"
    by (auto simp: in_set_conv_nth)
  have "device_load cshape devices d1 \<le> device_load cshape devices d2 + 1"
    using device_load_formula[OF assms(2) k1(1), of cshape]
          device_load_formula[OF assms(2) k2(1), of cshape] k1(2) k2(2)
    by (simp split: if_splits)
  with get_device_on_grid[OF assms(1)] show ?thesis by simp
qed

theorem cyclic_get_device_round_robin_witness:
  "map (cyclic_get_device [2, 3] [''n0'', ''n1'', ''n2'', ''n3'']) (grid_coordinates [2, 3])
     = [Inr ''n0'', Inr ''n1'', Inr ''n2'', Inr ''n3'', Inr ''n0'', Inr ''n1'']
   \<and> device_load [2, 3] [''n0'', ''n1'', ''n2'', ''n3''] ''n0'' = 2
   \<and> device_load [2, 3] [''n0'', ''n1'', ''n2'', ''n3''] ''n3'' = 1
   \<and> device_load [2, 3] [''n0'', ''n1'', ''n2'', ''n3''] ''n0''
       \<le> device_load [2, 3] [''n0'', ''n1'', ''n2'', ''n3''] ''n3'' + 1"
proof -
  let ?ds = "[''n0'', ''n1'', ''n2'', ''n3'']"
  have a: "?ds \<noteq> []" and b: "distinct ?ds" and c: "''n0'' \<in> set ?ds" and d: "''n3'' \<in> set ?ds"
    by simp_all
  have e: "map (\<lambda>i. Inr (?ds ! (i mod length ?ds)) :: error + string) [0..<prod_list [2, 3]]
           = [Inr ''n0'', Inr ''n1'', Inr ''n2'', Inr ''n3'', Inr ''n0'', Inr ''n1'']"
    by code_simp
  have l0: "device_load [2, 3] ?ds ''n0'' = 2" and l3: "device_load [2, 3] ?ds ''n3'' = 1"
    by code_simp+
  from cyclic_get_device_round_robin[OF a b c d, of "[2, 3]"] e l0 l3
  show ?thesis by simp
qed

section \<open>Properties of the blocked reduction and contraction\<close>

lemma block_index_in_grid:
  assumes "0 < b" and "r < n"
  shows "r div b < num_blocks n b"
proof -
  have "r \<le> n - 1" using assms(2) by simp
  then have a: "r div b \<le> (n - 1) div b" by (rule div_le_mono)
  have e: "n + b - 1 = (n - 1) + b" using assms(2) by simp
  have "((n - 1) + b) div b = (n - 1) div b + 1" using assms(1) by (simp only: div_add_self2)
  then have "num_blocks n b = (n - 1) div b + 1" unfolding num_blocks_def e .
  with a show ?thesis by simp
qed

lemma local_index_in_block:
  assumes "0 < b" and "r < n"
  shows "r mod b < local_extent n b (r div b)"
proof -
  have "r div b * b + r mod b = r" by simp
  then have "r mod b < n - r div b * b" using assms(2) by linarith
  then show ?thesis using assms(1) by (simp add: local_extent_def)
qed

lemma blocks_tile_prefix:
  assumes "0 < b"
  shows "concat (map (\<lambda>i. map (\<lambda>r. i * b + r) [0..<local_extent n b i]) [0..<g])
         = [0..<min n (g * b)]"
proof (induction g)
  case 0
  then show ?case by simp
next
  case (Suc g)
  have "map (\<lambda>r. g * b + r) [0..<local_extent n b g] = [g * b..<g * b + local_extent n b g]"
    using map_add_upt[of "g * b" "local_extent n b g"] by (simp add: add.commute)
  moreover have "[0..<min n (g * b)] @ [g * b..<g * b + local_extent n b g]
                 = [0..<min n (Suc g * b)]"
  proof (cases "g * b \<le> n")
    case True
    then have "min n (g * b) = g * b" by simp
    moreover have "g * b + local_extent n b g = min n (Suc g * b)"
    proof -
      define q where "q = g * b"
      have "q + min b (n - q) = min n (q + b)" using True unfolding q_def[symmetric] by linarith
      then show ?thesis by (simp add: local_extent_def q_def add.commute)
    qed
    ultimately show ?thesis
      using upt_add_eq_append[of 0 "g * b" "local_extent n b g"] by simp
  next
    case False
    then have "local_extent n b g = 0" "min n (g * b) = n" "min n (Suc g * b) = n"
      by (simp_all add: local_extent_def)
    then show ?thesis by simp
  qed
  ultimately show ?case using Suc by simp
qed

lemma num_blocks_cover: "0 < b \<Longrightarrow> n \<le> num_blocks n b * b"
proof -
  assume b: "0 < b"
  define q where "q = (n + b - 1) div b * b"
  have e: "q + (n + b - 1) mod b = n + b - 1" unfolding q_def by simp
  have m: "(n + b - 1) mod b < b" using b by simp
  have "n \<le> q" using e m b by linarith
  then show ?thesis by (simp add: num_blocks_def q_def)
qed

lemma blocks_tile:
  assumes "0 < b"
  shows "concat (map (\<lambda>i. map (\<lambda>r. i * b + r) [0..<local_extent n b i]) [0..<num_blocks n b])
         = [0..<n]"
  using blocks_tile_prefix[OF assms, of n "num_blocks n b"] num_blocks_cover[OF assms, of n]
  by (simp add: min_def)

lemma sum_list_of_concat:
  "sum_list (concat xss) = sum_list (map sum_list (xss :: int list list))"
  by (induction xss) simp_all

lemma sum_over_blocks:
  assumes "0 < b"
  shows "sum_list (map (\<lambda>i. sum_list (map (\<lambda>r. g (i * b + r)) [0..<local_extent n b i]))
                       [0..<num_blocks n b])
         = (sum_list (map g [0..<n]) :: int)"
proof -
  have "sum_list (map g [0..<n])
        = sum_list (map g (concat (map (\<lambda>i. map (\<lambda>r. i * b + r) [0..<local_extent n b i])
                                       [0..<num_blocks n b])))"
    by (simp only: blocks_tile[OF assms])
  also have "\<dots> = sum_list (map (\<lambda>i. sum_list (map (\<lambda>r. g (i * b + r)) [0..<local_extent n b i]))
                       [0..<num_blocks n b])"
    by (simp add: map_concat sum_list_of_concat comp_def)
  finally show ?thesis by simp
qed

lemma grid_shape_from_function:
  "grid_shape (from_function (m, n) (bm, bn) f) = (num_blocks m bm, num_blocks n bn)"
  by (simp add: grid_shape_def from_function_def)

lemma shape_from_function:
  "array_shape (from_function sh bs f) = sh" "array_block_shape (from_function sh bs f) = bs"
  by (simp_all add: from_function_def)

lemma grid_from_function:
  assumes "i < num_blocks m bm" and "j < num_blocks n bn"
  shows "array_grid (from_function (m, n) (bm, bn) f) ! i ! j
         = \<lparr>local_shape = (local_extent m bm i, local_extent n bn j),
            block_value = map (\<lambda>r. map (\<lambda>c. f (i * bm + r) (j * bn + c))
                                        [0..<local_extent n bn j])
                              [0..<local_extent m bm i]\<rparr>"
  using assms by (simp add: from_function_def)

lemma foldl_vector_block_add:
  assumes "length (vector_value p0) = L" and "\<forall>p\<in>set ps. length (vector_value p) = L"
    and "lc < L"
  shows "length (vector_value (foldl vector_block_add p0 ps)) = L
       \<and> vector_value (foldl vector_block_add p0 ps) ! lc
           = vector_value p0 ! lc + sum_list (map (\<lambda>p. vector_value p ! lc) ps)"
  using assms
proof (induction ps arbitrary: p0)
  case Nil
  then show ?case by simp
next
  case (Cons p ps)
  have l: "length (vector_value (vector_block_add p0 p)) = L"
    using Cons.prems by (simp add: vector_block_add_def)
  have v: "vector_value (vector_block_add p0 p) ! lc = vector_value p0 ! lc + vector_value p ! lc"
    using Cons.prems by (simp add: vector_block_add_def)
  from Cons.IH[OF l _ Cons.prems(3)] Cons.prems(2) v show ?case by simp
qed

lemma reduce_vector_blocks:
  assumes "\<forall>p\<in>set ps. length (vector_value p) = L" and "lc < L"
  shows "vector_value (reduce_ascending vector_block_add
                         \<lparr>local_length = L, vector_value = replicate L 0\<rparr> ps) ! lc
         = sum_list (map (\<lambda>p. vector_value p ! lc) ps)"
proof (cases ps)
  case Nil
  then show ?thesis using assms(2) by (simp add: reduce_ascending_def)
next
  case (Cons p rest)
  then show ?thesis
    using foldl_vector_block_add[of p L rest lc] assms
    by (simp add: reduce_ascending_def)
qed

lemma sum_axis0_from_function:
  assumes "0 < bm" and "0 < bn" and "c < n"
  shows "vector_element (sum_axis0 (from_function (m, n) (bm, bn) f)) c
         = sum_list (map (\<lambda>r. f r c) [0..<m])"
proof -
  let ?A = "from_function (m, n) (bm, bn) f"
  let ?j = "c div bn" and ?lc = "c mod bn"
  let ?L = "local_extent n bn ?j"
  have j: "?j < num_blocks n bn" using block_index_in_grid[OF assms(2,3)] .
  have lc: "?lc < ?L" using local_index_in_block[OF assms(2,3)] .
  let ?ps = "map (\<lambda>i. block_sum_axis0 (array_grid ?A ! i ! ?j)) [0..<num_blocks m bm]"
  have part: "block_sum_axis0 (array_grid ?A ! i ! ?j)
              = \<lparr>local_length = ?L,
                 vector_value = map (\<lambda>c'. sum_list (map (\<lambda>r. f (i * bm + r) (?j * bn + c'))
                                                          [0..<local_extent m bm i]))
                                    [0..<?L]\<rparr>"
    if "i < num_blocks m bm" for i
    using grid_from_function[OF that j, of f]
    by (simp add: block_sum_axis0_def comp_def)
  have len: "\<forall>p\<in>set ?ps. length (vector_value p) = ?L"
    using part by auto
  have "vector_element (sum_axis0 ?A) c
        = vector_value (reduce_ascending vector_block_add
                          \<lparr>local_length = ?L, vector_value = replicate ?L 0\<rparr> ?ps) ! ?lc"
    using j by (simp add: vector_element_def sum_axis0_def grid_shape_from_function
                  shape_from_function)
  also have "\<dots> = sum_list (map (\<lambda>p. vector_value p ! ?lc) ?ps)"
    using reduce_vector_blocks[OF len lc] .
  also have "\<dots> = sum_list (map (\<lambda>i. sum_list (map (\<lambda>r. f (i * bm + r) c)
                                                       [0..<local_extent m bm i]))
                                  [0..<num_blocks m bm])"
  proof -
    have "vector_value (block_sum_axis0 (array_grid ?A ! i ! ?j)) ! ?lc
          = sum_list (map (\<lambda>r. f (i * bm + r) c) [0..<local_extent m bm i])"
      if "i < num_blocks m bm" for i
      using part[OF that] lc by simp
    then have "map (\<lambda>i. vector_value (block_sum_axis0 (array_grid ?A ! i ! ?j)) ! ?lc)
                   [0..<num_blocks m bm]
               = map (\<lambda>i. sum_list (map (\<lambda>r. f (i * bm + r) c) [0..<local_extent m bm i]))
                   [0..<num_blocks m bm]"
      by (intro map_cong) auto
    then show ?thesis unfolding map_map comp_def by (rule arg_cong[where f = sum_list])
  qed
  also have "\<dots> = sum_list (map (\<lambda>r. f r c) [0..<m])"
    using sum_over_blocks[OF assms(1), of "\<lambda>r. f r c" m] .
  finally show ?thesis .
qed

text \<open>
  C2. For every block shape with positive entries (among them (2,2), (3,3) and (6,6), and
  also shapes that leave smaller boundary blocks), the blocked sum over axis 0 of the
  all-ones array of shape (6,6) is the dense vector [6,6,6,6,6,6]: the value does not
  depend on the partitioning.
\<close>

theorem sum_axis0_ones_block_shape_invariant:
  assumes "0 < bm" and "0 < bn"
  shows "vector_to_dense (sum_axis0 (ones (6, 6) (bm, bn))) = [6, 6, 6, 6, 6, 6]"
proof -
  have "vector_element (sum_axis0 (ones (6, 6) (bm, bn))) c = 6" if "c < 6" for c
  proof -
    have "sum_list (map (\<lambda>r. 1 :: int) [0..<6]) = 6" by code_simp
    then show ?thesis using sum_axis0_from_function[OF assms that, of 6 "\<lambda>r c. 1"]
      by (simp add: ones_def)
  qed
  then have "map (vector_element (sum_axis0 (ones (6, 6) (bm, bn)))) [0..<6]
             = map (\<lambda>c. 6) [0..<6]"
    by (intro map_cong) auto
  moreover have "map (\<lambda>c. 6 :: int) [0..<6] = [6, 6, 6, 6, 6, 6]" by code_simp
  moreover have "vector_shape (sum_axis0 (ones (6, 6) (bm, bn))) = 6"
    by (simp add: sum_axis0_def ones_def shape_from_function)
  ultimately show ?thesis by (simp add: vector_to_dense_def)
qed

theorem sum_axis0_ones_block_shape_invariant_witness:
  "vector_to_dense (sum_axis0 (ones (6, 6) (2, 2))) = [6, 6, 6, 6, 6, 6]
   \<and> vector_to_dense (sum_axis0 (ones (6, 6) (3, 3))) = [6, 6, 6, 6, 6, 6]
   \<and> vector_to_dense (sum_axis0 (ones (6, 6) (6, 6))) = [6, 6, 6, 6, 6, 6]"
  using sum_axis0_ones_block_shape_invariant[of 2 2]
        sum_axis0_ones_block_shape_invariant[of 3 3]
        sum_axis0_ones_block_shape_invariant[of 6 6]
  by simp

lemma well_formed_block:
  assumes "well_formed X" and "array_shape X = (n, p)" and "array_block_shape X = (b1, b2)"
    and "k < num_blocks n b1" and "j < num_blocks p b2"
  shows "local_shape (array_grid X ! k ! j) = (local_extent n b1 k, local_extent p b2 j)"
    and "length (block_value (array_grid X ! k ! j)) = local_extent n b1 k"
    and "\<forall>t < local_extent n b1 k. length (block_value (array_grid X ! k ! j) ! t) = local_extent p b2 j"
proof -
  from assms(1,2,3) have
    m: "map (map local_shape) (array_grid X)
          = map (\<lambda>i. map (\<lambda>j. (local_extent n b1 i, local_extent p b2 j)) [0..<num_blocks p b2])
                [0..<num_blocks n b1]"
    and ok: "list_all (list_all block_ok) (array_grid X)"
    by (simp_all add: well_formed_def grid_shape_def)
  from m have lg: "length (array_grid X) = num_blocks n b1"
    by (metis length_map length_upt minus_nat.diff_0)
  from m have "map (map local_shape) (array_grid X) ! k
          = map (\<lambda>i. map (\<lambda>j. (local_extent n b1 i, local_extent p b2 j)) [0..<num_blocks p b2])
                [0..<num_blocks n b1] ! k" by simp
  then have row: "map local_shape (array_grid X ! k)
          = map (\<lambda>j. (local_extent n b1 k, local_extent p b2 j)) [0..<num_blocks p b2]"
    using lg assms(4) by simp
  then have lr: "length (array_grid X ! k) = num_blocks p b2"
    by (metis length_map length_upt minus_nat.diff_0)
  from row have "map local_shape (array_grid X ! k) ! j
          = map (\<lambda>j. (local_extent n b1 k, local_extent p b2 j)) [0..<num_blocks p b2] ! j" by simp
  then show ls: "local_shape (array_grid X ! k ! j) = (local_extent n b1 k, local_extent p b2 j)"
    using lr assms(5) by simp
  have "block_ok (array_grid X ! k ! j)"
    using ok lg lr assms(4,5) by (simp add: list_all_length)
  then show "length (block_value (array_grid X ! k ! j)) = local_extent n b1 k"
    and "\<forall>t < local_extent n b1 k.
           length (block_value (array_grid X ! k ! j) ! t) = local_extent p b2 j"
    using ls by (simp_all add: block_ok_def list_all_length)
qed

lemma element_of_block:
  assumes "array_block_shape X = (b1, b2)" and "t < local_extent n b1 k" and "u < local_extent p b2 j"
  shows "element X (k * b1 + t) (j * b2 + u) = block_value (array_grid X ! k ! j) ! t ! u"
proof -
  have t: "t < b1" and u: "u < b2" using assms(2,3) by (simp_all add: local_extent_def)
  then have "(k * b1 + t) div b1 = k" "(k * b1 + t) mod b1 = t"
            "(j * b2 + u) div b2 = j" "(j * b2 + u) mod b2 = u"
    by simp_all
  then show ?thesis using assms(1) by (simp add: element_def)
qed

lemma map2_nth:
  assumes "length xs = length ys"
  shows "map2 f xs ys = map (\<lambda>t. f (xs ! t) (ys ! t)) [0..<length xs]"
  using assms by (intro nth_equalityI) simp_all

lemma foldl_block_add:
  assumes "length (block_value p0) = R" and "\<forall>t<R. length (block_value p0 ! t) = C"
    and "\<forall>q\<in>set ps. length (block_value q) = R \<and> (\<forall>t<R. length (block_value q ! t) = C)"
    and "lr < R" and "lc < C"
  shows "length (block_value (foldl block_add p0 ps)) = R
       \<and> (\<forall>t<R. length (block_value (foldl block_add p0 ps) ! t) = C)
       \<and> block_value (foldl block_add p0 ps) ! lr ! lc
           = block_value p0 ! lr ! lc + sum_list (map (\<lambda>q. block_value q ! lr ! lc) ps)"
  using assms
proof (induction ps arbitrary: p0)
  case Nil
  then show ?case by simp
next
  case (Cons q ps)
  have q: "length (block_value q) = R" "\<forall>t<R. length (block_value q ! t) = C"
    using Cons.prems(3) by simp_all
  have l: "length (block_value (block_add p0 q)) = R"
    using Cons.prems(1) q by (simp add: block_add_def)
  have c: "\<forall>t<R. length (block_value (block_add p0 q) ! t) = C"
    using Cons.prems(1,2) q by (simp add: block_add_def)
  have v: "block_value (block_add p0 q) ! lr ! lc
           = block_value p0 ! lr ! lc + block_value q ! lr ! lc"
    using Cons.prems(1,2,4,5) q by (simp add: block_add_def)
  have r: "\<forall>q\<in>set ps. length (block_value q) = R \<and> (\<forall>t<R. length (block_value q ! t) = C)"
    using Cons.prems(3) by simp
  from Cons.IH[OF l c r Cons.prems(4,5)] v show ?case by simp
qed

lemma reduce_blocks:
  assumes "\<forall>q\<in>set ps. length (block_value q) = R \<and> (\<forall>t<R. length (block_value q ! t) = C)"
    and "lr < R" and "lc < C"
  shows "block_value (reduce_ascending block_add (zero_block (R, C)) ps) ! lr ! lc
         = sum_list (map (\<lambda>q. block_value q ! lr ! lc) ps)"
proof (cases ps)
  case Nil
  then show ?thesis using assms(2,3) by (simp add: reduce_ascending_def zero_block_def)
next
  case (Cons q rest)
  then have "length (block_value q) = R" "\<forall>t<R. length (block_value q ! t) = C"
    "\<forall>q\<in>set rest. length (block_value q) = R \<and> (\<forall>t<R. length (block_value q ! t) = C)"
    using assms(1) by simp_all
  from foldl_block_add[OF this assms(2,3)] Cons show ?thesis
    by (simp add: reduce_ascending_def)
qed

lemma sum_list_delta_absent:
  "r \<notin> set xs \<Longrightarrow> sum_list (map (\<lambda>s. (if r = s then 1 else 0) * g s) xs) = (0 :: int)"
  by (induction xs) auto

lemma sum_list_delta:
  assumes "r < n"
  shows "sum_list (map (\<lambda>s. (if r = s then 1 else 0) * g s) [0..<n]) = (g r :: int)"
  using assms
proof (induction n)
  case 0
  then show ?case by simp
next
  case (Suc n)
  show ?case
  proof (cases "r = n")
    case True
    then have "r \<notin> set [0..<n]" by simp
    from sum_list_delta_absent[OF this, of g] True show ?thesis by simp
  next
    case False
    then have "r < n" using Suc.prems by simp
    from Suc.IH[OF this] False show ?thesis by simp
  qed
qed

lemma block_matmul_entry:
  assumes av: "block_value a = map (\<lambda>r'. map (\<lambda>t. fa r' t) [0..<L]) [0..<R]"
    and bl: "length (block_value b) = L"
    and bs: "local_shape b = (L, C)"
    and "lr < R" and "lc < C"
  shows "length (block_value (block_matmul a b)) = R"
    and "\<forall>t<R. length (block_value (block_matmul a b) ! t) = C"
    and "block_value (block_matmul a b) ! lr ! lc
         = sum_list (map (\<lambda>t. fa lr t * block_value b ! t ! lc) [0..<L])"
proof -
  show "length (block_value (block_matmul a b)) = R"
    by (simp add: block_matmul_def av)
  show "\<forall>t<R. length (block_value (block_matmul a b) ! t) = C"
    by (simp add: block_matmul_def av bs)
  have "block_value (block_matmul a b) ! lr ! lc
        = sum_list (map2 (\<lambda>x brow. x * brow ! lc) (map (\<lambda>t. fa lr t) [0..<L]) (block_value b))"
    using assms(4,5) by (simp add: block_matmul_def av bs)
  also have "map2 (\<lambda>x brow. x * brow ! lc) (map (\<lambda>t. fa lr t) [0..<L]) (block_value b)
             = map (\<lambda>t. (map (\<lambda>t. fa lr t) [0..<L] ! t) * block_value b ! t ! lc) [0..<L]"
    using map2_nth[of "map (\<lambda>t. fa lr t) [0..<L]" "block_value b" "\<lambda>x brow. x * brow ! lc"] bl
    by simp
  also have "\<dots> = map (\<lambda>t. fa lr t * block_value b ! t ! lc) [0..<L]"
    by (intro map_cong) auto
  finally show "block_value (block_matmul a b) ! lr ! lc
         = sum_list (map (\<lambda>t. fa lr t * block_value b ! t ! lc) [0..<L])" .
qed

lemma matmul_from_function:
  assumes wf: "well_formed X" and sx: "array_shape X = (n, p)"
    and bx: "array_block_shape X = (a2, b2)" and a1: "0 < a1"
  shows "\<exists>Y. matmul (from_function (m, n) (a1, a2) f) X = Inr Y
           \<and> array_shape Y = (m, p)
           \<and> array_block_shape Y = (a1, b2)
           \<and> (\<forall>r<m. \<forall>c<p. element Y r c
                 = sum_list (map (\<lambda>s. f r s * element X s c) [0..<n]))"
proof -
  let ?A = "from_function (m, n) (a1, a2) f"
  let ?gk = "num_blocks n a2"
  let ?Y = "\<lparr>array_shape = (m, p), array_block_shape = (a1, b2),
             array_grid =
               map (\<lambda>i. map (\<lambda>j.
                      reduce_ascending block_add
                        (zero_block (local_extent m a1 i, local_extent p b2 j))
                        (map (\<lambda>k. block_matmul (array_grid ?A ! i ! k) (array_grid X ! k ! j))
                             [0..<?gk]))
                    [0..<num_blocks p b2])
                 [0..<num_blocks m a1]\<rparr>"
  have a2: "0 < a2" and b2: "0 < b2" using wf bx by (simp_all add: well_formed_def)
  have gx: "grid_shape X = (?gk, num_blocks p b2)" using sx bx by (simp add: grid_shape_def)
  have mm: "matmul ?A X = Inr ?Y"
    using sx bx gx by (simp add: matmul_def shape_from_function grid_shape_from_function)
  have el: "element ?Y r c = sum_list (map (\<lambda>s. f r s * element X s c) [0..<n])"
    if r: "r < m" and c: "c < p" for r c
  proof -
    let ?i = "r div a1" and ?lr = "r mod a1" and ?j = "c div b2" and ?lc = "c mod b2"
    let ?R = "local_extent m a1 ?i" and ?C = "local_extent p b2 ?j"
    have i: "?i < num_blocks m a1" using block_index_in_grid[OF a1 r] .
    have j: "?j < num_blocks p b2" using block_index_in_grid[OF b2 c] .
    have lr: "?lr < ?R" using local_index_in_block[OF a1 r] .
    have lc: "?lc < ?C" using local_index_in_block[OF b2 c] .
    let ?ps = "map (\<lambda>k. block_matmul (array_grid ?A ! ?i ! k) (array_grid X ! k ! ?j)) [0..<?gk]"
    have blk: "length (block_value (block_matmul (array_grid ?A ! ?i ! k) (array_grid X ! k ! ?j))) = ?R
        \<and> (\<forall>t<?R. length (block_value (block_matmul (array_grid ?A ! ?i ! k)
                                                    (array_grid X ! k ! ?j)) ! t) = ?C)
        \<and> block_value (block_matmul (array_grid ?A ! ?i ! k) (array_grid X ! k ! ?j)) ! ?lr ! ?lc
            = sum_list (map (\<lambda>t. f r (k * a2 + t) * element X (k * a2 + t) c)
                            [0..<local_extent n a2 k])"
      if k: "k < ?gk" for k
    proof -
      let ?L = "local_extent n a2 k"
      have av: "block_value (array_grid ?A ! ?i ! k)
                = map (\<lambda>r'. map (\<lambda>t. f (?i * a1 + r') (k * a2 + t)) [0..<?L]) [0..<?R]"
        using grid_from_function[OF i k, of f] by simp
      note xb = well_formed_block[OF wf sx bx k j]
      note e = block_matmul_entry[OF av xb(2) xb(1) lr lc]
      have meq: "map (\<lambda>t. f (?i * a1 + ?lr) (k * a2 + t) * block_value (array_grid X ! k ! ?j) ! t ! ?lc)
                [0..<?L]
            = map (\<lambda>t. f r (k * a2 + t) * element X (k * a2 + t) c) [0..<?L]"
      proof (intro map_cong refl)
        fix t assume "t \<in> set [0..<?L]"
        then have t: "t < ?L" by simp
        have "element X (k * a2 + t) (?j * b2 + ?lc) = block_value (array_grid X ! k ! ?j) ! t ! ?lc"
          using element_of_block[OF bx t lc] .
        then show "f (?i * a1 + ?lr) (k * a2 + t) * block_value (array_grid X ! k ! ?j) ! t ! ?lc
                   = f r (k * a2 + t) * element X (k * a2 + t) c"
          by simp
      qed
      have "block_value (block_matmul (array_grid ?A ! ?i ! k) (array_grid X ! k ! ?j)) ! ?lr ! ?lc
            = sum_list (map (\<lambda>t. f (?i * a1 + ?lr) (k * a2 + t)
                                     * block_value (array_grid X ! k ! ?j) ! t ! ?lc) [0..<?L])"
        using e(3) .
      also have "\<dots> = sum_list (map (\<lambda>t. f r (k * a2 + t) * element X (k * a2 + t) c) [0..<?L])"
        by (rule arg_cong[where f = sum_list]) (rule meq)
      finally show ?thesis using e(1,2) by blast
    qed
    have dims: "\<forall>q\<in>set ?ps. length (block_value q) = ?R \<and> (\<forall>t<?R. length (block_value q ! t) = ?C)"
      using blk by auto
    have "element ?Y r c
          = block_value (reduce_ascending block_add (zero_block (?R, ?C)) ?ps) ! ?lr ! ?lc"
      using i j by (simp add: element_def)
    also have "\<dots> = sum_list (map (\<lambda>q. block_value q ! ?lr ! ?lc) ?ps)"
      using reduce_blocks[OF dims lr lc] .
    also have "\<dots> = sum_list (map (\<lambda>k. sum_list (map (\<lambda>t. f r (k * a2 + t) * element X (k * a2 + t) c)
                                                        [0..<local_extent n a2 k]))
                                    [0..<?gk])"
    proof -
      have "map (\<lambda>k. block_value (block_matmul (array_grid ?A ! ?i ! k) (array_grid X ! k ! ?j))
                        ! ?lr ! ?lc) [0..<?gk]
            = map (\<lambda>k. sum_list (map (\<lambda>t. f r (k * a2 + t) * element X (k * a2 + t) c)
                                       [0..<local_extent n a2 k])) [0..<?gk]"
        using blk by (intro map_cong) auto
      then show ?thesis unfolding map_map comp_def by (rule arg_cong[where f = sum_list])
    qed
    also have "\<dots> = sum_list (map (\<lambda>s. f r s * element X s c) [0..<n])"
      using sum_over_blocks[OF a2, of "\<lambda>s. f r s * element X s c" n] .
    finally show ?thesis .
  qed
  from mm el show ?thesis by (intro exI[of _ ?Y]) simp
qed

lemma well_formed_from_function:
  assumes "0 < bm" and "0 < bn"
  shows "well_formed (from_function (m, n) (bm, bn) f)"
  using assms
  by (simp add: well_formed_def grid_shape_def from_function_def block_ok_def list_all_iff comp_def)

lemma matmul_returns_iff_compatible:
  "(\<exists>Y. matmul A B = Inr Y) \<longleftrightarrow> compatible_for_matmul A B"
  by (simp add: matmul_def compatible_for_matmul_def)

text \<open>
  C1. For every \<open>n\<close>, every block shape of the identity and every well-formed array \<open>X\<close>
  of any block shape that is compatible with the identity for matrix multiplication (its
  first extent is \<open>n\<close> and, as blocked contraction requires, its block size on the
  contracted axis is the identity's), the blocked product of the identity and \<open>X\<close> is
  returned and has the shape and, element by element, the dense value of \<open>X\<close>.
\<close>

theorem matmul_identity_left_neutral:
  assumes "well_formed X" and "0 < b1"
    and "compatible_for_matmul (identity n (b1, b2)) X"
  shows "\<exists>Y. matmul (identity n (b1, b2)) X = Inr Y
           \<and> array_shape Y = array_shape X
           \<and> to_dense Y = to_dense X"
proof -
  obtain p where sx: "array_shape X = (n, p)"
    using assms(3)
    by (cases "array_shape X")
       (simp add: compatible_for_matmul_def identity_def eye_def shape_from_function)
  obtain bx2 where bx: "array_block_shape X = (b2, bx2)"
    using assms(3)
    by (cases "array_block_shape X")
       (simp add: compatible_for_matmul_def identity_def eye_def shape_from_function)
  from matmul_from_function[OF assms(1) sx bx assms(2), of n "\<lambda>r c. if r = c then 1 else 0"]
  obtain Y where mm: "matmul (identity n (b1, b2)) X = Inr Y"
    and sy: "array_shape Y = (n, p)"
    and el: "\<forall>r<n. \<forall>c<p. element Y r c
               = sum_list (map (\<lambda>s. (if r = s then 1 else 0) * element X s c) [0..<n])"
    unfolding identity_def eye_def by blast
  have e: "element Y r c = element X r c" if "r < n" and "c < p" for r c
    using el that sum_list_delta[OF that(1), of "\<lambda>s. element X s c"] by simp
  have "map (\<lambda>r. map (\<lambda>c. element Y r c) [0..<p]) [0..<n]
        = map (\<lambda>r. map (\<lambda>c. element X r c) [0..<p]) [0..<n]"
    by (intro map_cong refl) (simp_all add: e)
  then have "to_dense Y = to_dense X" by (simp add: to_dense_def sx sy)
  with mm sx sy show ?thesis by simp
qed

theorem matmul_identity_left_neutral_witness:
  "well_formed (demo_array (2, 2)) \<and> compatible_for_matmul (identity 4 (2, 2)) (demo_array (2, 2))
   \<and> (\<exists>Y. matmul (identity 4 (2, 2)) (demo_array (2, 2)) = Inr Y
          \<and> to_dense Y = [[0, 1, 2], [10, 11, 12], [20, 21, 22], [30, 31, 32]])
   \<and> well_formed (demo_array (4, 3)) \<and> compatible_for_matmul (identity 4 (3, 4)) (demo_array (4, 3))
   \<and> (\<exists>Y. matmul (identity 4 (3, 4)) (demo_array (4, 3)) = Inr Y
          \<and> to_dense Y = [[0, 1, 2], [10, 11, 12], [20, 21, 22], [30, 31, 32]])"
proof -
  have w1: "well_formed (demo_array (2, 2))" and w2: "well_formed (demo_array (4, 3))"
    by (simp_all add: demo_array_def well_formed_from_function)
  have c1: "compatible_for_matmul (identity 4 (2, 2)) (demo_array (2, 2))"
    and c2: "compatible_for_matmul (identity 4 (3, 4)) (demo_array (4, 3))"
    by (simp_all add: compatible_for_matmul_def identity_def eye_def demo_array_def
          shape_from_function)
  have d1: "to_dense (demo_array (2, 2)) = [[0, 1, 2], [10, 11, 12], [20, 21, 22], [30, 31, 32]]"
    and d2: "to_dense (demo_array (4, 3)) = [[0, 1, 2], [10, 11, 12], [20, 21, 22], [30, 31, 32]]"
    by code_simp+
  have p1: "(0::nat) < 2" and p2: "(0::nat) < 3" by simp_all
  from matmul_identity_left_neutral[OF w1 p1 c1] d1
  have r1: "\<exists>Y. matmul (identity 4 (2, 2)) (demo_array (2, 2)) = Inr Y
          \<and> to_dense Y = [[0, 1, 2], [10, 11, 12], [20, 21, 22], [30, 31, 32]]" by auto
  from matmul_identity_left_neutral[OF w2 p2 c2] d2
  have r2: "\<exists>Y. matmul (identity 4 (3, 4)) (demo_array (4, 3)) = Inr Y
          \<and> to_dense Y = [[0, 1, 2], [10, 11, 12], [20, 21, 22], [30, 31, 32]]" by auto
  from w1 w2 c1 c2 r1 r2 show ?thesis by blast
qed

end
